theory Spec2Isabelle
  imports Complex_Main
begin

section \<open>L-SHADE (pyade/lshade.py): values, errors and NumPy arithmetic\<close>

text \<open>
  The development follows \<^verbatim>\<open>apply\<close> of \<^verbatim>\<open>src/pyade/lshade.py\<close> line by line.
  Python values whose type the code inspects are a datatype; a raised exception is the
  left summand of the result; a loop that may not return is a partial function into
  \<open>option\<close>.

  Floating-point numbers carry their special values (\<open>NaN\<close>, \<open>\<plusminus>inf\<close>), and a zero divisor
  is taken as \<open>+0\<close>. A finite float is an exact real and the NumPy operations on the
  arrays are exact; the schedule of line 154, whose value is rounded to an integer, is
  computed in doubles, each operation rounded.
\<close>

datatype pyval = PyNone | PyInt int | PyFloat real | NpFloat64 real | PyStr string

text \<open>
  \<open>PyFloat\<close> is a value of type \<^verbatim>\<open>float\<close> itself; \<open>NpFloat64\<close> is a \<^verbatim>\<open>numpy.float64\<close>, whose
  type is a subclass of \<^verbatim>\<open>float\<close>. \<^verbatim>\<open>isinstance(v, float)\<close> holds of both, and \<open>as_float\<close>
  gives the number then.
\<close>

fun as_float :: "pyval \<Rightarrow> real option" where
  "as_float (PyFloat x) = Some x"
| "as_float (NpFloat64 x) = Some x"
| "as_float PyNone = None"
| "as_float (PyInt n) = None"
| "as_float (PyStr s) = None"

datatype error = ValueError string | TypeError | IndexError | ZeroDivisionError

datatype npfloat = Fin real | PInf | NInf | NaN

fun np_add :: "npfloat \<Rightarrow> npfloat \<Rightarrow> npfloat" where
  "np_add (Fin a) (Fin b) = Fin (a + b)"
| "np_add NaN _ = NaN"
| "np_add _ NaN = NaN"
| "np_add PInf NInf = NaN"
| "np_add NInf PInf = NaN"
| "np_add PInf _ = PInf"
| "np_add _ PInf = PInf"
| "np_add NInf _ = NInf"
| "np_add _ NInf = NInf"

fun np_neg :: "npfloat \<Rightarrow> npfloat" where
  "np_neg (Fin a) = Fin (- a)"
| "np_neg PInf = NInf"
| "np_neg NInf = PInf"
| "np_neg NaN = NaN"

text \<open>An infinity scaled by a finite factor: sign by sign, and \<open>0 * inf\<close> is \<open>NaN\<close>.\<close>

definition inf_times :: "real \<Rightarrow> npfloat \<Rightarrow> npfloat" where
  "inf_times a i = (if a = 0 then NaN else if 0 < a then i else np_neg i)"

fun np_mul :: "npfloat \<Rightarrow> npfloat \<Rightarrow> npfloat" where
  "np_mul (Fin a) (Fin b) = Fin (a * b)"
| "np_mul NaN _ = NaN"
| "np_mul _ NaN = NaN"
| "np_mul (Fin a) PInf = inf_times a PInf"
| "np_mul (Fin a) NInf = inf_times a NInf"
| "np_mul PInf (Fin b) = inf_times b PInf"
| "np_mul NInf (Fin b) = inf_times b NInf"
| "np_mul PInf PInf = PInf"
| "np_mul NInf NInf = PInf"
| "np_mul PInf NInf = NInf"
| "np_mul NInf PInf = NInf"

fun np_div :: "npfloat \<Rightarrow> npfloat \<Rightarrow> npfloat" where
  "np_div (Fin a) (Fin b) =
     (if b = 0 then (if a = 0 then NaN else if 0 < a then PInf else NInf)
      else Fin (a / b))"
| "np_div NaN _ = NaN"
| "np_div _ NaN = NaN"
| "np_div (Fin a) PInf = Fin 0"
| "np_div (Fin a) NInf = Fin 0"
| "np_div PInf (Fin b) = (if 0 \<le> b then PInf else NInf)"
| "np_div NInf (Fin b) = (if 0 \<le> b then NInf else PInf)"
| "np_div PInf PInf = NaN"
| "np_div PInf NInf = NaN"
| "np_div NInf PInf = NaN"
| "np_div NInf NInf = NaN"

text \<open>Comparisons: every comparison with \<open>NaN\<close> is false.\<close>

fun np_le :: "npfloat \<Rightarrow> npfloat \<Rightarrow> bool" where
  "np_le (Fin a) (Fin b) = (a \<le> b)"
| "np_le NaN _ = False"
| "np_le _ NaN = False"
| "np_le NInf _ = True"
| "np_le _ PInf = True"
| "np_le PInf _ = False"
| "np_le _ NInf = False"

fun np_gt :: "npfloat \<Rightarrow> npfloat \<Rightarrow> bool" where
  "np_gt (Fin a) (Fin b) = (b < a)"
| "np_gt NaN _ = False"
| "np_gt _ NaN = False"
| "np_gt PInf PInf = False"
| "np_gt NInf NInf = False"
| "np_gt PInf _ = True"
| "np_gt _ NInf = True"
| "np_gt NInf _ = False"
| "np_gt _ PInf = False"

fun np_eq :: "npfloat \<Rightarrow> npfloat \<Rightarrow> bool" where
  "np_eq (Fin a) (Fin b) = (a = b)"
| "np_eq PInf PInf = True"
| "np_eq NInf NInf = True"
| "np_eq (Fin a) _ = False"
| "np_eq _ (Fin b) = False"
| "np_eq NaN _ = False"
| "np_eq _ NaN = False"
| "np_eq PInf NInf = False"
| "np_eq NInf PInf = False"

fun np_isnan :: "npfloat \<Rightarrow> bool" where
  "np_isnan NaN = True"
| "np_isnan _ = False"

text \<open>\<^verbatim>\<open>np.clip(x, 0, 1)\<close>: \<open>NaN\<close> stays \<open>NaN\<close>.\<close>

fun np_clip01 :: "npfloat \<Rightarrow> npfloat" where
  "np_clip01 (Fin a) = Fin (max 0 (min 1 a))"
| "np_clip01 PInf = Fin 1"
| "np_clip01 NInf = Fin 0"
| "np_clip01 NaN = NaN"

definition np_sum :: "npfloat list \<Rightarrow> npfloat" where
  "np_sum xs = foldl np_add (Fin 0) xs"

text \<open>
  Fancy indexing \<^verbatim>\<open>a[idx]\<close> with an index array: NumPy raises \<^verbatim>\<open>IndexError\<close> when an
  index is out of bounds (the indexes here are never negative).
\<close>

definition np_take :: "'a list \<Rightarrow> nat list \<Rightarrow> error + 'a list" where
  "np_take xs idx =
     (if list_all (\<lambda>i. i < length xs) idx then Inr (map (nth xs) idx) else Inl IndexError)"

text \<open>
  Boolean-mask assignment \<^verbatim>\<open>a[mask] = vals\<close>: the masked positions receive the values in
  order. The callers pass exactly as many values as there are masked positions.
\<close>

fun mask_assign :: "('a \<Rightarrow> bool) \<Rightarrow> 'a list \<Rightarrow> 'a list \<Rightarrow> 'a list" where
  "mask_assign P [] vs = []"
| "mask_assign P (x # xs) [] = x # xs"
| "mask_assign P (x # xs) (v # vs) =
     (if P x then v # mask_assign P xs vs else x # mask_assign P xs (v # vs))"

text \<open>
  Python's \<^verbatim>\<open>round\<close> on a float: to the nearest integer, a tie to the even one.
\<close>

definition py_round :: "real \<Rightarrow> int" where
  "py_round x =
     (let fl = \<lfloor>x\<rfloor>; d = x - of_int fl in
      if d < 1 / 2 then fl
      else if 1 / 2 < d then fl + 1
      else if even fl then fl else fl + 1)"

text \<open>
  The arithmetic of Python floats where a result is rounded to an integer afterwards
  (line 154): every operation returns the exact result rounded to the nearest double,
  that is to 53 significant bits, a tie to the even significand. \<open>normalise\<close> scales a
  positive number into \<open>[1, 2)\<close>, in at most \<open>n\<close> steps, and returns the scale; 1100 steps
  cover the exponents of the doubles. Overflow and subnormal numbers are not modelled.
\<close>

fun normalise :: "nat \<Rightarrow> real \<Rightarrow> real \<Rightarrow> real \<times> real" where
  "normalise 0 x sc = (x, sc)"
| "normalise (Suc n) x sc =
     (if 2 \<le> x then normalise n (x / 2) (sc * 2)
      else if x < 1 then normalise n (x * 2) (sc / 2)
      else (x, sc))"

definition double_round :: "real \<Rightarrow> real" where
  "double_round x =
     (if x = 0 then 0
      else
        (case normalise 1100 \<bar>x\<bar> 1 of
           (m, sc) \<Rightarrow>
             (let r = of_int (py_round (m * 2 ^ 52)) / 2 ^ 52 * sc
              in if x < 0 then - r else r)))"

text \<open>Python's slice \<^verbatim>\<open>xs[:n]\<close>: a negative \<open>n\<close> counts from the end.\<close>

definition py_prefix :: "int \<Rightarrow> 'a list \<Rightarrow> 'a list" where
  "py_prefix n xs = (if 0 \<le> n then take (nat n) xs else take (nat (int (length xs) + n)) xs)"

text \<open>\<^verbatim>\<open>np.min\<close> raises \<^verbatim>\<open>ValueError\<close> on an empty array.\<close>

definition np_min :: "real list \<Rightarrow> error + real" where
  "np_min xs =
     (case xs of
        [] \<Rightarrow> Inl (ValueError ''zero-size array to reduction operation minimum which has no identity'')
      | x # ys \<Rightarrow> Inr (foldl min x ys))"

text \<open>
  \<^verbatim>\<open>np.argsort\<close> with its default kind: the indexes in ascending order of value. The
  default sort is not stable, so the order it leaves among equal values is a parameter:
  \<open>ties xs i\<close> ranks index \<open>i\<close> among the indexes of equal value (two stable insertion
  sorts, by rank and then by value).
\<close>

definition np_argsort :: "(real list \<Rightarrow> nat \<Rightarrow> nat) \<Rightarrow> real list \<Rightarrow> nat list" where
  "np_argsort ties xs = sort_key (nth xs) (sort_key (ties xs) [0..<length xs])"

text \<open>\<^verbatim>\<open>np.argmin\<close>: the first index of the minimum; \<^verbatim>\<open>ValueError\<close> on an empty array.\<close>

definition np_argmin :: "real list \<Rightarrow> error + nat" where
  "np_argmin xs =
     (case xs of
        [] \<Rightarrow> Inl (ValueError ''attempt to get argmin of an empty sequence'')
      | x # ys \<Rightarrow> Inr (length (takeWhile (\<lambda>v. v \<noteq> foldl min x ys) xs)))"

section \<open>Collaborators and random sources\<close>

text \<open>
  \<^verbatim>\<open>pyade.commons\<close> is not part of the source at hand, and the random generators are
  global state seeded by \<^verbatim>\<open>seed\<close>. Both are parameters of the model: the environment holds
  the objective, what the variation operators produce for each parent, and the sequences
  of raw draws the generators deliver (and the order \<^verbatim>\<open>np.argsort\<close> leaves among equal
  values); the state holds the position reached in the sequences.
  A memory index is a raw draw reduced modulo the memory size; a normal or Cauchy sample
  is \<open>loc + 0.1 * z\<close> for a raw standard variate \<open>z\<close>.
\<close>

record 'ind env =
  func :: "'ind \<Rightarrow> real"
  init_individual :: "nat \<Rightarrow> 'ind"
  mutant :: "'ind list \<Rightarrow> real list \<Rightarrow> npfloat list \<Rightarrow> real list \<Rightarrow> (real \<times> real) list
               \<Rightarrow> nat \<Rightarrow> nat \<Rightarrow> 'ind"
  crossed_with :: "'ind list \<Rightarrow> 'ind list \<Rightarrow> npfloat list \<Rightarrow> nat \<Rightarrow> nat \<Rightarrow> 'ind"
  index_src :: "nat \<Rightarrow> nat"
  normal_src :: "nat \<Rightarrow> real"
  cauchy_src :: "nat \<Rightarrow> real"
  sample_src :: "nat \<Rightarrow> nat"
  argsort_ties :: "real list \<Rightarrow> nat \<Rightarrow> nat"

text \<open>
  Modelled from the spec: \<^verbatim>\<open>init_population(size, dim, bounds) -> Population\<close>, one
  individual for each of the \<open>size\<close> positions.
\<close>

definition init_population :: "'ind env \<Rightarrow> int \<Rightarrow> 'ind list" where
  "init_population env n = map (init_individual env) [0..<nat n]"

text \<open>
  Modelled from the spec: \<^verbatim>\<open>evaluate(Population) -> fitness[]\<close>, one real for each
  individual.
\<close>

definition apply_fitness :: "'ind env \<Rightarrow> 'ind list \<Rightarrow> real list" where
  "apply_fitness env pop = map (func env) pop"

text \<open>
  Modelled from the spec: the mutation and crossover operators return one trial for each
  parent, the i-th trial belonging to the i-th parent. They are called as the source
  calls them (the mutation receives no archive).
\<close>

definition current_to_pbest_mutation ::
  "'ind env \<Rightarrow> 'ind list \<Rightarrow> real list \<Rightarrow> npfloat list \<Rightarrow> real list \<Rightarrow> (real \<times> real) list
     \<Rightarrow> nat \<Rightarrow> 'ind list" where
  "current_to_pbest_mutation env pop fit f p bnds pos =
     map (mutant env pop fit f p bnds pos) [0..<length pop]"

definition crossover ::
  "'ind env \<Rightarrow> 'ind list \<Rightarrow> 'ind list \<Rightarrow> npfloat list \<Rightarrow> nat \<Rightarrow> 'ind list" where
  "crossover env pop mutated cr pos = map (crossed_with env pop mutated cr pos) [0..<length pop]"

text \<open>
  Modelled from the spec: \<^verbatim>\<open>select(Population, Trials, fitness, trial_fitness) ->
  (NewPopulation, success_indexes)\<close>, where the trial replaces the parent when the trial
  fitness is \<open>\<le>\<close> the parent fitness. The four arrays have the population's length.
\<close>

definition selection ::
  "'ind list \<Rightarrow> 'ind list \<Rightarrow> real list \<Rightarrow> real list \<Rightarrow> 'ind list \<times> nat list" where
  "selection pop crossed fit c_fit =
     (map (\<lambda>i. if c_fit ! i \<le> fit ! i then crossed ! i else pop ! i) [0..<length pop],
      filter (\<lambda>i. c_fit ! i \<le> fit ! i) [0..<length pop])"

text \<open>\<^verbatim>\<open>np.random.choice(all_indexes, n)\<close> with \<^verbatim>\<open>all_indexes = list(range(msize))\<close>.\<close>

definition draw_indexes :: "'ind env \<Rightarrow> int \<Rightarrow> nat \<Rightarrow> nat \<Rightarrow> nat list" where
  "draw_indexes env msize pos n = map (\<lambda>i. index_src env (pos + i) mod nat msize) [0..<n]"

definition random_choice :: "'ind env \<Rightarrow> int \<Rightarrow> nat \<Rightarrow> int \<Rightarrow> error + nat list" where
  "random_choice env msize pos n =
     (if n < 0 then Inl (ValueError ''negative dimensions are not allowed'')
      else if msize \<le> 0 \<and> n \<noteq> 0
        then Inl (ValueError ([CHR 0x27, CHR ''a'', CHR 0x27]
                              @ '' cannot be empty unless no samples are taken''))
      else Inr (draw_indexes env msize pos (nat n)))"

text \<open>
  \<^verbatim>\<open>np.random.normal(loc, 0.1, n)\<close> and \<^verbatim>\<open>scipy.stats.cauchy.rvs(loc=loc, scale=0.1, size=n)\<close>
  for an array \<open>loc\<close> of \<open>n\<close> locations.
\<close>

definition rvs :: "(nat \<Rightarrow> real) \<Rightarrow> npfloat list \<Rightarrow> nat \<Rightarrow> npfloat list" where
  "rvs src locs pos =
     map (\<lambda>(loc, i). np_add loc (Fin (0.1 * src (pos + i)))) (zip locs [0..<length locs])"

text \<open>
  \<^verbatim>\<open>random.sample(pool, n)\<close>, by the pool algorithm of the standard library: the j-th
  remaining element is taken and the last remaining one moves into its place.
\<close>

fun sample_pool :: "(nat \<Rightarrow> nat) \<Rightarrow> nat \<Rightarrow> 'a list \<Rightarrow> nat \<Rightarrow> 'a list" where
  "sample_pool src pos pool 0 = []"
| "sample_pool src pos [] (Suc n) = []"
| "sample_pool src pos (x # xs) (Suc n) =
     (let pool = x # xs; j = src pos mod length pool
      in pool ! j # sample_pool src (Suc pos) (butlast (pool[j := last pool])) n)"

definition random_sample :: "'ind env \<Rightarrow> nat \<Rightarrow> 'a list \<Rightarrow> int \<Rightarrow> error + 'a list" where
  "random_sample env pos pool n =
     (if 0 \<le> n \<and> n \<le> int (length pool) then Inr (sample_pool (sample_src env) pos pool (nat n))
      else Inl (ValueError ''Sample larger than population or is negative''))"

section \<open>The state of a run\<close>

text \<open>
  The local variables of \<^verbatim>\<open>apply\<close> that the generation loop reads or writes, and the
  position in the random sources.
\<close>

record 'ind state =
  population :: "'ind list"
  population_size :: int
  init_size :: int
  memory_size :: int
  max_evals :: int
  precision :: pyval
  bounds :: "(real \<times> real) list"
  m_cr :: "npfloat list"
  m_f :: "npfloat list"
  archive :: "'ind list"
  k :: nat
  fitness :: "real list"
  num_evals :: int
  best_fitness :: real
  converge_countdown :: int
  fitness_history :: "real list"
  current_generation :: nat
  rng_pos :: nat

section \<open>2.1 Adaptation: sampling CR and F\<close>

text \<open>Lines 114 to 119: the indexes \<open>r\<close>, the clipped \<open>cr\<close>, and the first draw of \<open>f\<close>.\<close>

definition first_draw :: "'ind env \<Rightarrow> 'ind state \<Rightarrow> error + npfloat list \<times> npfloat list \<times> nat" where
  "first_draw env s =
     (case random_choice env (memory_size s) (rng_pos s) (population_size s) of
        Inl e \<Rightarrow> Inl e
      | Inr r \<Rightarrow>
         (case np_take (m_cr s) r of
            Inl e \<Rightarrow> Inl e
          | Inr loc_cr \<Rightarrow>
             (case np_take (m_f s) r of
                Inl e \<Rightarrow> Inl e
              | Inr loc_f \<Rightarrow>
                 (let n = length r;
                      cr = map np_clip01 (rvs (normal_src env) loc_cr (rng_pos s + n));
                      cr = map (\<lambda>(c, loc). if np_eq loc (Fin 1) then Fin 0 else c) (zip cr loc_cr);
                      f = rvs (cauchy_src env) loc_f (rng_pos s + 2 * n);
                      f = map (\<lambda>x. if np_gt x (Fin 1) then Fin 0 else x) f
                  in Inr (cr, f, rng_pos s + 3 * n)))))"

text \<open>
  Lines 121 to 123: \<^verbatim>\<open>while sum(f <= 0) != 0\<close>, redraw the entries that are \<open>\<le> 0\<close> from
  fresh memory indexes. The loop has no other exit, so the function is partial.
\<close>

definition invalid :: "npfloat \<Rightarrow> bool" where
  "invalid x = np_le x (Fin 0)"

text \<open>The body of the loop (lines 122 and 123): one pass over the invalid entries.\<close>

definition redraw ::
  "'ind env \<Rightarrow> int \<Rightarrow> npfloat list \<Rightarrow> npfloat list \<Rightarrow> nat \<Rightarrow> error + npfloat list \<times> nat" where
  "redraw env msize mf f pos =
     (let bad = length (filter invalid f) in
      case random_choice env msize pos (int bad) of
        Inl e \<Rightarrow> Inl e
      | Inr r \<Rightarrow>
         (case np_take mf r of
            Inl e \<Rightarrow> Inl e
          | Inr loc_f \<Rightarrow>
             Inr (mask_assign invalid f (rvs (cauchy_src env) loc_f (pos + bad)), pos + 2 * bad)))"

partial_function (option) resample_f ::
  "'ind env \<Rightarrow> int \<Rightarrow> npfloat list \<Rightarrow> npfloat list \<Rightarrow> nat \<Rightarrow> (error + npfloat list \<times> nat) option" where
  "resample_f env msize mf f pos =
     (if length (filter invalid f) \<noteq> 0 then
        (case redraw env msize mf f pos of
           Inl e \<Rightarrow> Some (Inl e)
         | Inr (f1, pos1) \<Rightarrow> resample_f env msize mf f1 pos1)
      else Some (Inr (f, pos)))"

text \<open>
  The same loop allowed at most \<open>n\<close> passes: \<open>None\<close> when \<open>n\<close> passes still leave an
  invalid entry.
\<close>

fun resample_passes ::
  "nat \<Rightarrow> 'ind env \<Rightarrow> int \<Rightarrow> npfloat list \<Rightarrow> npfloat list \<Rightarrow> nat \<Rightarrow> (error + npfloat list \<times> nat) option" where
  "resample_passes 0 env msize mf f pos =
     (if length (filter invalid f) \<noteq> 0 then None else Some (Inr (f, pos)))"
| "resample_passes (Suc n) env msize mf f pos =
     (if length (filter invalid f) \<noteq> 0 then
        (case redraw env msize mf f pos of
           Inl e \<Rightarrow> Some (Inl e)
         | Inr (f1, pos1) \<Rightarrow> resample_passes n env msize mf f1 pos1)
      else Some (Inr (f, pos)))"

section \<open>2.2 Common steps and 2.3 Adapt for next generation\<close>

text \<open>
  Index-array assignment \<^verbatim>\<open>a[idx] = vals\<close>; \<^verbatim>\<open>IndexError\<close> when an index is out of bounds.
\<close>

definition np_put :: "'a list \<Rightarrow> nat list \<Rightarrow> 'a list \<Rightarrow> error + 'a list" where
  "np_put xs idx vals =
     (if list_all (\<lambda>i. i < length xs) idx
      then Inr (fold (\<lambda>(i, v) ys. ys[i := v]) (zip idx vals) xs)
      else Inl IndexError)"

text \<open>
  Lines 125 to 133: mutation, crossover, evaluation of the trials and selection. The
  result is the population returned by the selection, the success indexes and the trial
  fitness.
\<close>

definition variation ::
  "'ind env \<Rightarrow> 'ind state \<Rightarrow> npfloat list \<Rightarrow> npfloat list \<Rightarrow> nat
     \<Rightarrow> 'ind list \<times> nat list \<times> real list" where
  "variation env s cr f pos =
     (let p = replicate (nat (population_size s)) (0.11 :: real);
          mutated = current_to_pbest_mutation env (population s) (fitness s) f p (bounds s) pos;
          crossed = crossover env (population s) mutated cr pos;
          c_fitness = apply_fitness env crossed;
          (pop, indexes) = selection (population s) crossed (fitness s) c_fitness
      in (pop, indexes, c_fitness))"

text \<open>The weighted Lehmer mean \<^verbatim>\<open>np.sum(w * x ** 2) / np.sum(w * x)\<close>.\<close>

definition lehmer :: "npfloat list \<Rightarrow> npfloat list \<Rightarrow> npfloat" where
  "lehmer ws xs =
     np_div (np_sum (map (\<lambda>(w, x). np_mul w (np_mul x x)) (zip ws xs)))
            (np_sum (map (\<lambda>(w, x). np_mul w x) (zip ws xs)))"

text \<open>
  Lines 142 to 150, run when the success set is not empty: the weights, the two memory
  entries at the cursor, and the cursor.
\<close>

definition update_memory ::
  "'ind state \<Rightarrow> real list \<Rightarrow> npfloat list \<Rightarrow> npfloat list \<Rightarrow> nat list
     \<Rightarrow> error + npfloat list \<times> npfloat list \<times> nat" where
  "update_memory s c_fitness cr f indexes =
     (case np_take (fitness s) indexes of
        Inl e \<Rightarrow> Inl e
      | Inr fit_old \<Rightarrow>
     (case np_take c_fitness indexes of
        Inl e \<Rightarrow> Inl e
      | Inr fit_new \<Rightarrow>
     (let weights = map (\<lambda>(a, b). \<bar>a - b\<bar>) (zip fit_old fit_new);
          total = sum_list weights;
          weights = map (\<lambda>w. np_div (Fin w) (Fin total)) weights
      in
     (case np_take cr indexes of
        Inl e \<Rightarrow> Inl e
      | Inr crs \<Rightarrow>
         if length (m_cr s) \<le> k s then Inl IndexError
         else
     (let mcr = (m_cr s)[k s := lehmer weights crs];
          mcr = (if np_isnan (mcr ! k s) then mcr[k s := Fin 1] else mcr)
      in
     (case np_take f indexes of
        Inl e \<Rightarrow> Inl e
      | Inr fs \<Rightarrow>
         if length (m_f s) \<le> k s then Inl IndexError
         else
           (let mf = (m_f s)[k s := lehmer weights fs];
                k1 = k s + 1
            in Inr (mcr, mf, if int k1 = memory_size s then 0 else k1))))))))"

text \<open>
  Lines 136 to 150: the archive is extended with \<^verbatim>\<open>population[indexes]\<close>, where
  \<^verbatim>\<open>population\<close> is by now the array returned by the selection; capacity and memory are
  handled only when there was a success.
\<close>

definition adapt_archive_memory ::
  "'ind env \<Rightarrow> 'ind state \<Rightarrow> 'ind list \<Rightarrow> nat list \<Rightarrow> real list \<Rightarrow> npfloat list \<Rightarrow> npfloat list
     \<Rightarrow> nat \<Rightarrow> error + 'ind list \<times> npfloat list \<times> npfloat list \<times> nat \<times> nat" where
  "adapt_archive_memory env s pop indexes c_fitness cr f pos =
     (case np_take pop indexes of
        Inl e \<Rightarrow> Inl e
      | Inr added \<Rightarrow>
         (let arch = archive s @ added in
          if 0 < length indexes then
            (case (if population_size s < int (length arch)
                   then (case random_sample env pos arch (population_size s) of
                           Inl e \<Rightarrow> Inl e
                         | Inr sampled \<Rightarrow> Inr (sampled, pos + nat (population_size s)))
                   else Inr (arch, pos)) of
               Inl e \<Rightarrow> Inl e
             | Inr (arch, pos) \<Rightarrow>
                (case update_memory s c_fitness cr f indexes of
                   Inl e \<Rightarrow> Inl e
                 | Inr (mcr, mf, k1) \<Rightarrow> Inr (arch, mcr, mf, k1, pos)))
          else Inr (arch, m_cr s, m_f s, k s, pos)))"

text \<open>
  Line 154: the linear schedule of the population size,
  \<^verbatim>\<open>round((4 - init_size) / max_evals * num_evals + init_size)\<close>. The quotient of the two
  integers is a double; the integers \<^verbatim>\<open>num_evals\<close> and \<^verbatim>\<open>init_size\<close> are converted to doubles,
  and the product and the sum are rounded in turn. \<open>schedule_exact\<close> is the same expression
  on the reals; it serves to state how far the doubles can be from it.
\<close>

definition schedule :: "int \<Rightarrow> int \<Rightarrow> int \<Rightarrow> real" where
  "schedule isize mevals nevals =
     double_round
       (double_round
          (double_round (real_of_int (4 - isize) / real_of_int mevals)
           * double_round (real_of_int nevals))
        + double_round (real_of_int isize))"

definition schedule_exact :: "int \<Rightarrow> int \<Rightarrow> int \<Rightarrow> real" where
  "schedule_exact isize mevals nevals =
     real_of_int (4 - isize) / real_of_int mevals * real_of_int nevals + real_of_int isize"

definition target_size :: "int \<Rightarrow> int \<Rightarrow> int \<Rightarrow> int" where
  "target_size isize mevals nevals = py_round (schedule isize mevals nevals)"

text \<open>
  Lines 152 to 161: the winners' fitness is stored, then the population is cut to the
  target size when the target is smaller. The argument is the state after the steps
  above, with \<^verbatim>\<open>num_evals\<close> already increased.
\<close>

definition adapt_population_size ::
  "'ind env \<Rightarrow> 'ind state \<Rightarrow> nat list \<Rightarrow> real list \<Rightarrow> error + 'ind state" where
  "adapt_population_size env s indexes c_fitness =
     (case np_take c_fitness indexes of
        Inl e \<Rightarrow> Inl e
      | Inr fit_new \<Rightarrow>
     (case np_put (fitness s) indexes fit_new of
        Inl e \<Rightarrow> Inl e
      | Inr fit \<Rightarrow>
         if max_evals s = 0 then Inl ZeroDivisionError
         else
           (let new_population_size = target_size (init_size s) (max_evals s) (num_evals s) in
            if new_population_size < population_size s then
              (let best_indexes = py_prefix new_population_size (np_argsort (argsort_ties env) fit) in
               case np_take (population s) best_indexes of
                 Inl e \<Rightarrow> Inl e
               | Inr pop \<Rightarrow>
                  Inr (s\<lparr>population_size := new_population_size,
                         population := pop,
                         fitness := map (nth fit) best_indexes,
                         k := (if int (k s) = init_size s then 0 else k s)\<rparr>))
            else Inr (s\<lparr>fitness := fit\<rparr>))))"

text \<open>
  Lines 166 to 171: \<^verbatim>\<open>isinstance(precision, float)\<close> is \<open>as_float\<close> giving a number, and the
  countdown is decided against \<^verbatim>\<open>best_fitness\<close> as it was before this generation's update.
  (The callback of line 164 only reads the state.)
\<close>

definition monitor :: "'ind state \<Rightarrow> error + 'ind state" where
  "monitor s =
     (case np_min (fitness s) of
        Inl e \<Rightarrow> Inl e
      | Inr lowest \<Rightarrow>
         Inr (s\<lparr>converge_countdown :=
                  (case as_float (precision s) of
                     Some eps \<Rightarrow>
                       if \<bar>lowest - best_fitness s\<bar> < eps then converge_countdown s - 1
                       else converge_countdown s
                   | None \<Rightarrow> converge_countdown s),
                best_fitness := (if lowest < best_fitness s then lowest else best_fitness s),
                fitness_history := fitness_history s @ [lowest],
                current_generation := current_generation s + 1\<rparr>))"

text \<open>One generation after \<open>cr\<close> and \<open>f\<close> have been sampled (lines 125 to 171).\<close>

definition evolve :: "'ind env \<Rightarrow> 'ind state \<Rightarrow> npfloat list \<Rightarrow> npfloat list \<Rightarrow> nat \<Rightarrow> error + 'ind state" where
  "evolve env s cr f pos =
     (case variation env s cr f pos of
        (pop, indexes, c_fitness) \<Rightarrow>
          (case adapt_archive_memory env s pop indexes c_fitness cr f pos of
             Inl e \<Rightarrow> Inl e
           | Inr (arch, mcr, mf, k1, pos1) \<Rightarrow>
              (case adapt_population_size env
                      (s\<lparr>population := pop, num_evals := num_evals s + population_size s,
                         archive := arch, m_cr := mcr, m_f := mf, k := k1, rng_pos := pos1\<rparr>)
                      indexes c_fitness of
                 Inl e \<Rightarrow> Inl e
               | Inr s1 \<Rightarrow> monitor s1)))"

text \<open>
  Lines 114 to 123 together: the \<open>cr\<close> and \<open>f\<close> vectors handed to the variation operators,
  and the position reached in the random sources.
\<close>

definition sample_parameters ::
  "'ind env \<Rightarrow> 'ind state \<Rightarrow> (error + npfloat list \<times> npfloat list \<times> nat) option" where
  "sample_parameters env s =
     (case first_draw env s of
        Inl e \<Rightarrow> Some (Inl e)
      | Inr (cr, f, pos) \<Rightarrow>
         (case resample_f env (memory_size s) (m_f s) f pos of
            None \<Rightarrow> None
          | Some (Inl e) \<Rightarrow> Some (Inl e)
          | Some (Inr (f, pos)) \<Rightarrow> Some (Inr (cr, f, pos))))"

text \<open>The body of the generation loop (lines 113 to 171).\<close>

definition generation :: "'ind env \<Rightarrow> 'ind state \<Rightarrow> (error + 'ind state) option" where
  "generation env s =
     (case sample_parameters env s of
        None \<Rightarrow> None
      | Some (Inl e) \<Rightarrow> Some (Inl e)
      | Some (Inr (cr, f, pos)) \<Rightarrow> Some (evolve env s cr f pos))"

text \<open>Line 112: the loop continues while budget and countdown are both left.\<close>

definition running :: "'ind state \<Rightarrow> bool" where
  "running s = (num_evals s < max_evals s \<and> 0 < converge_countdown s)"

partial_function (option) generation_loop ::
  "'ind env \<Rightarrow> 'ind state \<Rightarrow> (error + 'ind state) option" where
  "generation_loop env s =
     (if running s then
        (case generation env s of
           None \<Rightarrow> None
         | Some (Inl e) \<Rightarrow> Some (Inl e)
         | Some (Inr s1) \<Rightarrow> generation_loop env s1)
      else Some (Inr s))"

section \<open>Parameter checks, initialisation and the whole run\<close>

definition get_default_params_max_evals_after_converge :: "int \<Rightarrow> int" where
  "get_default_params_max_evals_after_converge d = 2 * d"

text \<open>
  \<^verbatim>\<open>type(v) is not int or v <= 0\<close>, raising \<^verbatim>\<open>ValueError\<close> with the given message.
\<close>

definition positive_int :: "pyval \<Rightarrow> string \<Rightarrow> error + int" where
  "positive_int v msg =
     (case v of
        PyInt n \<Rightarrow> if n \<le> 0 then Inl (ValueError msg) else Inr n
      | _ \<Rightarrow> Inl (ValueError msg))"

text \<open>
  Line 69: \<^verbatim>\<open>type(v) is not None and v <= 0\<close>. The first conjunct is true of every value
  (a type object is never \<^verbatim>\<open>None\<close>), so \<^verbatim>\<open>v <= 0\<close> is always evaluated: comparing \<^verbatim>\<open>None\<close>
  or a string with \<open>0\<close> raises \<^verbatim>\<open>TypeError\<close>.
\<close>

definition check_max_evals_after_converge :: "pyval \<Rightarrow> error + unit" where
  "check_max_evals_after_converge v =
     (case v of
        PyNone \<Rightarrow> Inl TypeError
      | PyStr _ \<Rightarrow> Inl TypeError
      | PyInt n \<Rightarrow>
          if n \<le> 0 then Inl (ValueError ''max_evals_after_converge must be None or a positive integer.'')
          else Inr ()
      | PyFloat x \<Rightarrow>
          if x \<le> 0 then Inl (ValueError ''max_evals_after_converge must be None or a positive integer.'')
          else Inr ()
      | NpFloat64 x \<Rightarrow>
          if x \<le> 0 then Inl (ValueError ''max_evals_after_converge must be None or a positive integer.'')
          else Inr ())"

definition bounds_message :: string where
  "bounds_message =
     ''bounds must be a NumPy ndarray.'' @ [CHR 0x0A] @
     ''The array must be of individual_size length. Each row must have 2 elements.''"

text \<open>
  Lines 60 to 81. The bounds are an array of rows of two numbers, so of their shape only
  the number of rows is left to check. An integer seed passes the test of line 77, and
  \<^verbatim>\<open>np.random.seed\<close> (line 80) raises \<^verbatim>\<open>ValueError\<close> unless it lies between 0 and
  \<open>2\<^sup>3\<^sup>2 - 1\<close>; \<^verbatim>\<open>random.seed\<close> takes any integer.
\<close>

definition check_parameters ::
  "pyval \<Rightarrow> pyval \<Rightarrow> pyval \<Rightarrow> pyval \<Rightarrow> (real \<times> real) list \<Rightarrow> pyval \<Rightarrow> error + int \<times> int \<times> int" where
  "check_parameters psize isize mevals mevac bnds seed =
     (case positive_int psize ''population_size must be a positive integer.'' of
        Inl e \<Rightarrow> Inl e
      | Inr psize \<Rightarrow>
     (case positive_int isize ''individual_size must be a positive integer.'' of
        Inl e \<Rightarrow> Inl e
      | Inr isize \<Rightarrow>
     (case positive_int mevals ''max_iter must be a positive integer.'' of
        Inl e \<Rightarrow> Inl e
      | Inr mevals \<Rightarrow>
     (case check_max_evals_after_converge mevac of
        Inl e \<Rightarrow> Inl e
      | Inr _ \<Rightarrow>
         if int (length bnds) \<noteq> isize then Inl (ValueError bounds_message)
         else
           (case seed of
              PyInt sd \<Rightarrow>
                if 0 \<le> sd \<and> sd < 2 ^ 32 then Inr (psize, isize, mevals)
                else Inl (ValueError ''Seed must be between 0 and 2**32 - 1'')
            | PyNone \<Rightarrow> Inr (psize, isize, mevals)
            | _ \<Rightarrow> Inl (ValueError ''seed must be an integer or None.''))))))"

text \<open>
  Lines 107 to 111: \<^verbatim>\<open>isinstance(v, int) and v > 0\<close>, otherwise the default of
  \<^verbatim>\<open>get_default_params\<close>.
\<close>

definition initial_countdown :: "pyval \<Rightarrow> int \<Rightarrow> int" where
  "initial_countdown mevac isize =
     (case mevac of
        PyInt n \<Rightarrow> if 0 < n then n else get_default_params_max_evals_after_converge isize
      | _ \<Rightarrow> get_default_params_max_evals_after_converge isize)"

text \<open>
  Lines 97 to 103: the loop that counts \<^verbatim>\<open>max_iters\<close>, started with \<open>i = 0\<close>. It has no
  exit but its test, so it is a partial function.
\<close>

partial_function (option) max_iters_loop :: "int \<Rightarrow> int \<Rightarrow> int \<Rightarrow> nat \<Rightarrow> nat option" where
  "max_iters_loop isize mevals i max_iters =
     (if i < mevals
      then max_iters_loop isize mevals (i + target_size isize mevals i) (max_iters + 1)
      else Some max_iters)"

text \<open>
  Lines 60 to 111, up to the generation loop. \<^verbatim>\<open>np.ones\<close> raises \<^verbatim>\<open>ValueError\<close> on a
  negative size. Nothing reads \<^verbatim>\<open>max_iters\<close>, and for checked parameters up to \<open>2\<^sup>4\<^sup>0\<close> its
  loop returns (lemma \<open>max_iters_loop_returns\<close> below), so the state is built without it.
\<close>

definition initial_state ::
  "'ind env \<Rightarrow> pyval \<Rightarrow> pyval \<Rightarrow> (real \<times> real) list \<Rightarrow> int \<Rightarrow> pyval \<Rightarrow> pyval \<Rightarrow> pyval \<Rightarrow> pyval
     \<Rightarrow> error + 'ind state" where
  "initial_state env psize isize bnds msize prec mevac mevals seed =
     (case check_parameters psize isize mevals mevac bnds seed of
        Inl e \<Rightarrow> Inl e
      | Inr (psize, isize, mevals) \<Rightarrow>
         (let pop = init_population env psize in
          if msize < 0 then Inl (ValueError ''negative dimensions are not allowed'')
          else
            (let fit = apply_fitness env pop in
             case np_min fit of
               Inl e \<Rightarrow> Inl e
             | Inr lowest \<Rightarrow>
                Inr \<lparr>population = pop, population_size = psize, init_size = psize,
                     memory_size = msize, max_evals = mevals, precision = prec, bounds = bnds,
                     m_cr = replicate (nat msize) (Fin 0.5), m_f = replicate (nat msize) (Fin 0.5),
                     archive = [], k = 0, fitness = fit, num_evals = psize,
                     best_fitness = lowest,
                     converge_countdown = initial_countdown mevac isize,
                     fitness_history = [], current_generation = 0, rng_pos = 0\<rparr>)))"

text \<open>
  The state in which the generation loop ends, when it does; \<open>None\<close> when a resampling
  loop never returns.
\<close>

definition final_state ::
  "'ind env \<Rightarrow> pyval \<Rightarrow> pyval \<Rightarrow> (real \<times> real) list \<Rightarrow> int \<Rightarrow> pyval \<Rightarrow> pyval \<Rightarrow> pyval \<Rightarrow> pyval
     \<Rightarrow> (error + 'ind state) option" where
  "final_state env psize isize bnds msize prec mevac mevals seed =
     (case initial_state env psize isize bnds msize prec mevac mevals seed of
        Inl e \<Rightarrow> Some (Inl e)
      | Inr s \<Rightarrow> generation_loop env s)"

text \<open>
  Lines 173 to 177: the best individual, its fitness and, on request, the history.
  The function \<^verbatim>\<open>apply\<close> of the module is \<open>lshade_apply\<close> here.
\<close>

definition result :: "'ind state \<Rightarrow> bool \<Rightarrow> error + 'ind \<times> real \<times> real list option" where
  "result s return_history =
     (case np_argmin (fitness s) of
        Inl e \<Rightarrow> Inl e
      | Inr best \<Rightarrow>
         if length (population s) \<le> best then Inl IndexError
         else Inr (population s ! best, fitness s ! best,
                   if return_history then Some (fitness_history s) else None))"

definition lshade_apply ::
  "'ind env \<Rightarrow> pyval \<Rightarrow> pyval \<Rightarrow> (real \<times> real) list \<Rightarrow> int \<Rightarrow> pyval \<Rightarrow> pyval \<Rightarrow> pyval \<Rightarrow> pyval
     \<Rightarrow> bool \<Rightarrow> (error + 'ind \<times> real \<times> real list option) option" where
  "lshade_apply env psize isize bnds msize prec mevac mevals seed return_history =
     (case final_state env psize isize bnds msize prec mevac mevals seed of
        None \<Rightarrow> None
      | Some (Inl e) \<Rightarrow> Some (Inl e)
      | Some (Inr s) \<Rightarrow> Some (result s return_history))"

text \<open>
  The states at the head of the loop: \<open>reaches env s t\<close> when the loop, started in \<open>s\<close>,
  arrives at its test in state \<open>t\<close> after some number of generations.
\<close>

inductive reaches :: "'ind env \<Rightarrow> 'ind state \<Rightarrow> 'ind state \<Rightarrow> bool" for env :: "'ind env" where
  start: "reaches env s s"
| next_generation:
    "reaches env s t \<Longrightarrow> running t \<Longrightarrow> generation env t = Some (Inr u) \<Longrightarrow> reaches env s u"

text \<open>
  The loop cut off after \<open>n\<close> generations: the state at the head of the loop after \<open>n\<close>
  generations, or the state in which the loop has ended before.
\<close>

fun generations_upto :: "nat \<Rightarrow> 'ind env \<Rightarrow> 'ind state \<Rightarrow> (error + 'ind state) option" where
  "generations_upto 0 env s = Some (Inr s)"
| "generations_upto (Suc n) env s =
     (if running s then
        (case generation env s of
           None \<Rightarrow> None
         | Some (Inl e) \<Rightarrow> Some (Inl e)
         | Some (Inr s1) \<Rightarrow> generations_upto n env s1)
      else Some (Inr s))"

section \<open>Concrete runs\<close>

text \<open>
  A family of environments on one-dimensional individuals for the sphere objective. The
  initial population is \<open>[1], [2], \<dots>\<close>; the trial of parent \<open>i\<close> is half the parent where
  \<open>better pos i\<close> holds and halfway between the parent and the upper bound \<open>10\<close> otherwise;
  every memory index drawn is \<open>0\<close>, every normal variate is \<open>0\<close> and the Cauchy variates are
  \<open>cs\<close>; equal values are sorted in index order (as the insertion sort that NumPy uses on
  arrays this short does).
\<close>

definition sphere :: "real list \<Rightarrow> real" where
  "sphere x = sum_list (map (\<lambda>v. v * v) x)"

definition demo_env :: "(nat \<Rightarrow> real) \<Rightarrow> (nat \<Rightarrow> nat \<Rightarrow> bool) \<Rightarrow> (real list) env" where
  "demo_env cs better =
     \<lparr>func = sphere,
      init_individual = (\<lambda>i. [real (i + 1)]),
      mutant = (\<lambda>pop fit f p bnds pos i.
                  if better pos i then map (\<lambda>v. v / 2) (pop ! i)
                  else map (\<lambda>v. (v + 10) / 2) (pop ! i)),
      crossed_with = (\<lambda>pop mutated cr pos i. mutated ! i),
      index_src = (\<lambda>_. 0),
      normal_src = (\<lambda>_. 0),
      cauchy_src = cs,
      sample_src = (\<lambda>_. 0),
      argsort_ties = (\<lambda>_ _. 0)\<rparr>"

text \<open>Every trial improves; every Cauchy variate is \<open>6\<close>, so that every draw of F is \<open>1.1\<close>.\<close>

definition high_f_env :: "(real list) env" where
  "high_f_env = demo_env (\<lambda>_. 6) (\<lambda>_ _. True)"

text \<open>Every trial improves; every Cauchy variate is \<open>0\<close>, so that every F is \<open>0.5\<close>.\<close>

definition plain_env :: "(real list) env" where
  "plain_env = demo_env (\<lambda>_. 0) (\<lambda>_ _. True)"

text \<open>
  Only the first individual improves, and only in the first five generations (the
  variation step of generation \<open>g\<close> sees the position \<open>15 * g\<close>).
\<close>

definition cursor_env :: "(real list) env" where
  "cursor_env = demo_env (\<lambda>_. 0) (\<lambda>pos i. i = 0 \<and> pos < 80)"

text \<open>Every Cauchy variate is \<open>-10\<close>, so that every draw of F is \<open>-0.5\<close>.\<close>

definition low_f_env :: "(real list) env" where
  "low_f_env = demo_env (\<lambda>_. - 10) (\<lambda>_ _. True)"

text \<open>The objective is constant, so every trial ties with its parent.\<close>

definition flat_env :: "(real list) env" where
  "flat_env = (demo_env (\<lambda>_. 0) (\<lambda>_ _. True))\<lparr>func := (\<lambda>_. 0)\<rparr>"

text \<open>The set-up of a run of \<open>psize\<close> individuals with a budget of \<open>mevals\<close> evaluations.\<close>

definition demo_start ::
  "(real list) env \<Rightarrow> int \<Rightarrow> int \<Rightarrow> int \<Rightarrow> pyval \<Rightarrow> pyval \<Rightarrow> error + (real list) state" where
  "demo_start env psize mevals msize prec mevac =
     initial_state env (PyInt psize) (PyInt 1) [(- 10, 10)] msize prec mevac (PyInt mevals) PyNone"

text \<open>
  A run of four individuals with a budget of 100 evaluations, precision \<open>100.0\<close> and
  \<^verbatim>\<open>max_evals_after_converge = 1\<close>: its initial state and the state after its only generation.
\<close>

definition stall_start :: "(real list) state" where
  "stall_start =
     \<lparr>population = [[1], [2], [3], [4]], population_size = 4, init_size = 4,
      memory_size = 6, max_evals = 100, precision = PyFloat 100, bounds = [(- 10, 10)],
      m_cr = replicate 6 (Fin (1 / 2)), m_f = replicate 6 (Fin (1 / 2)),
      archive = [], k = 0, fitness = [1, 4, 9, 16], num_evals = 4, best_fitness = 1,
      converge_countdown = 1, fitness_history = [], current_generation = 0, rng_pos = 0\<rparr>"


text \<open>
  Four individuals, a budget of 8 evaluations (one generation), precision the integer
  \<open>1\<close>: the initial state and the state in which the loop ends.
\<close>

definition budget_start :: "(real list) state" where
  "budget_start =
     \<lparr>population = [[1], [2], [3], [4]], population_size = 4, init_size = 4,
      memory_size = 6, max_evals = 8, precision = PyInt 1, bounds = [(- 10, 10)],
      m_cr = replicate 6 (Fin (1 / 2)), m_f = replicate 6 (Fin (1 / 2)),
      archive = [], k = 0, fitness = [1, 4, 9, 16], num_evals = 4, best_fitness = 1,
      converge_countdown = 1, fitness_history = [], current_generation = 0, rng_pos = 0\<rparr>"


text \<open>
  Four individuals, a budget of 8 evaluations, one memory slot, the default precision.
\<close>

definition high_start :: "(real list) state" where
  "high_start =
     \<lparr>population = [[1], [2], [3], [4]], population_size = 4, init_size = 4,
      memory_size = 1, max_evals = 8, precision = PyFloat (1 / 1000000), bounds = [(- 10, 10)],
      m_cr = [Fin (1 / 2)], m_f = [Fin (1 / 2)],
      archive = [], k = 0, fitness = [1, 4, 9, 16], num_evals = 4, best_fitness = 1,
      converge_countdown = 2, fitness_history = [], current_generation = 0, rng_pos = 0\<rparr>"

text \<open>
  Five individuals and a budget of 10 evaluations: the only generation ends with a shrink
  to four.
\<close>

definition shrink_start :: "(real list) state" where
  "shrink_start =
     \<lparr>population = [[1], [2], [3], [4], [5]], population_size = 5, init_size = 5,
      memory_size = 6, max_evals = 10, precision = PyFloat (1 / 1000000), bounds = [(- 10, 10)],
      m_cr = replicate 6 (Fin (1 / 2)), m_f = replicate 6 (Fin (1 / 2)),
      archive = [], k = 0, fitness = [1, 4, 9, 16, 25], num_evals = 5, best_fitness = 1,
      converge_countdown = 2, fitness_history = [], current_generation = 0, rng_pos = 0\<rparr>"

definition shrink_end :: "(real list) state" where
  "shrink_end =
     shrink_start\<lparr>population := [[1 / 2], [1], [3 / 2], [2]], population_size := 4,
       archive := [[1 / 2], [1], [3 / 2], [2], [5 / 2]], k := 1,
       fitness := [1 / 4, 1, 9 / 4, 4], num_evals := 10, best_fitness := 1 / 4,
       fitness_history := [1 / 4], current_generation := 1, rng_pos := 15\<rparr>"

text \<open>The same with a budget of 6 evaluations, which the only generation overruns.\<close>

definition overrun_start :: "(real list) state" where
  "overrun_start = shrink_start\<lparr>max_evals := 6\<rparr>"

text \<open>Two individuals and a budget of 8 evaluations.\<close>

definition small_start :: "(real list) state" where
  "small_start =
     \<lparr>population = [[1], [2]], population_size = 2, init_size = 2,
      memory_size = 6, max_evals = 8, precision = PyFloat (1 / 1000000), bounds = [(- 10, 10)],
      m_cr = replicate 6 (Fin (1 / 2)), m_f = replicate 6 (Fin (1 / 2)),
      archive = [], k = 0, fitness = [1, 4], num_evals = 2, best_fitness = 1,
      converge_countdown = 2, fitness_history = [], current_generation = 0, rng_pos = 0\<rparr>"

text \<open>
  Five individuals, six memory slots and a budget of 64 evaluations: the initial state
  and the state after five generations, in each of which the first individual improved.
\<close>

definition cursor_start :: "(real list) state" where
  "cursor_start = shrink_start\<lparr>max_evals := 64\<rparr>"

definition cursor_state :: "(real list) state" where
  "cursor_state =
     cursor_start\<lparr>population := [[1 / 32], [2], [3], [4], [5]],
       archive := [[1 / 2], [1 / 4], [1 / 8], [1 / 16], [1 / 32]], k := 5,
       fitness := [1 / 1024, 4, 9, 16, 25], num_evals := 30, best_fitness := 1 / 1024,
       fitness_history := [1 / 4, 1 / 16, 1 / 64, 1 / 256, 1 / 1024],
       current_generation := 5, rng_pos := 75\<rparr>"

declare resample_f.simps [code]
declare generation_loop.simps [code]
declare max_iters_loop.simps [code]

section \<open>The structure of one generation\<close>

lemma generation_cases:
  assumes "generation env s = Some (Inr t)"
  obtains cr f pos pop indexes c_fit arch mcr mf k1 pos1 s1 where
    "sample_parameters env s = Some (Inr (cr, f, pos))"
    "variation env s cr f pos = (pop, indexes, c_fit)"
    "adapt_archive_memory env s pop indexes c_fit cr f pos = Inr (arch, mcr, mf, k1, pos1)"
    "adapt_population_size env
       (s\<lparr>population := pop, num_evals := num_evals s + population_size s,
          archive := arch, m_cr := mcr, m_f := mf, k := k1, rng_pos := pos1\<rparr>)
       indexes c_fit = Inr s1"
    "monitor s1 = Inr t"
  using assms
  by (auto simp: generation_def evolve_def split: option.splits sum.splits prod.splits)

lemma monitor_frame:
  assumes "monitor s = Inr t"
  shows "population_size t = population_size s" "init_size t = init_size s"
    "max_evals t = max_evals s" "memory_size t = memory_size s" "precision t = precision s"
    "num_evals t = num_evals s" "archive t = archive s" "m_cr t = m_cr s" "m_f t = m_f s"
    "k t = k s" "fitness t = fitness s" "population t = population s"
  using assms by (auto simp: monitor_def split: sum.splits)


lemma adapt_population_size_frame:
  assumes "adapt_population_size env s indexes c_fit = Inr t"
  shows "init_size t = init_size s"
    "max_evals t = max_evals s" "memory_size t = memory_size s" "precision t = precision s"
    "num_evals t = num_evals s" "archive t = archive s" "m_cr t = m_cr s" "m_f t = m_f s"
    "best_fitness t = best_fitness s" "converge_countdown t = converge_countdown s"
  using assms by (auto simp: adapt_population_size_def Let_def split: sum.splits if_splits)

lemma adapt_population_size_size:
  assumes "adapt_population_size env s indexes c_fit = Inr t"
  shows "population_size t =
           (if target_size (init_size s) (max_evals s) (num_evals s) < population_size s
            then target_size (init_size s) (max_evals s) (num_evals s) else population_size s)"
    and "max_evals s \<noteq> 0"
    and "k t = (if target_size (init_size s) (max_evals s) (num_evals s) < population_size s
                  \<and> int (k s) = init_size s then 0 else k s)"
  using assms by (auto simp: adapt_population_size_def Let_def split: sum.splits if_splits)

text \<open>What one generation does to the sizes and to the constants of the run.\<close>

lemma generation_sizes:
  assumes "generation env s = Some (Inr t)"
  shows "init_size t = init_size s" "max_evals t = max_evals s" "memory_size t = memory_size s"
    "precision t = precision s" "num_evals t = num_evals s + population_size s"
    "population_size t =
       (if target_size (init_size s) (max_evals s) (num_evals s + population_size s) < population_size s
        then target_size (init_size s) (max_evals s) (num_evals s + population_size s)
        else population_size s)"
proof -
  from assms obtain cr f pos pop indexes c_fit arch mcr mf k1 pos1 s1 where
    a: "adapt_population_size env
       (s\<lparr>population := pop, num_evals := num_evals s + population_size s,
          archive := arch, m_cr := mcr, m_f := mf, k := k1, rng_pos := pos1\<rparr>)
       indexes c_fit = Inr s1"
    and m: "monitor s1 = Inr t"
    by (rule generation_cases)
  show "init_size t = init_size s" "max_evals t = max_evals s" "memory_size t = memory_size s"
    "precision t = precision s" "num_evals t = num_evals s + population_size s"
    using adapt_population_size_frame[OF a] monitor_frame[OF m] by simp_all
  show "population_size t =
       (if target_size (init_size s) (max_evals s) (num_evals s + population_size s) < population_size s
        then target_size (init_size s) (max_evals s) (num_evals s + population_size s)
        else population_size s)"
    using adapt_population_size_size(1)[OF a] monitor_frame(1)[OF m] by simp
qed


section \<open>The double arithmetic of the schedule\<close>

lemma py_round_error: "\<bar>real_of_int (py_round y) - y\<bar> \<le> 1 / 2"
proof -
  have "real_of_int \<lfloor>y\<rfloor> \<le> y" "y < real_of_int \<lfloor>y\<rfloor> + 1" by linarith+
  then show ?thesis by (auto simp: py_round_def Let_def)
qed

lemma py_round_above:
  assumes "real_of_int n - 1 / 2 < x"
  shows "n \<le> py_round x"
proof -
  have "\<bar>real_of_int (py_round x) - x\<bar> \<le> 1 / 2" by (rule py_round_error)
  with assms have "real_of_int n - 1 < real_of_int (py_round x)" by linarith
  then show ?thesis by linarith
qed

lemma normalise_spec:
  assumes "1 / 2 ^ n \<le> x" "x < 2 ^ Suc n" "0 < sc" "normalise n x sc = (m, sc1)"
  shows "1 \<le> m \<and> m < 2 \<and> m * sc1 = x * sc \<and> 0 < sc1"
  using assms
proof (induction n arbitrary: x sc)
  case 0
  then show ?case by simp
next
  case (Suc n)
  show ?case
  proof (cases "2 \<le> x")
    case True
    have a: "1 / 2 ^ n \<le> x / 2" 
    proof -
      have "1 / 2 ^ n \<le> (1::real)" by (simp add: divide_le_eq_1)
      with True show ?thesis by linarith
    qed
    have b: "x / 2 < 2 ^ Suc n" using Suc.prems(2) by simp
    have c: "normalise n (x / 2) (sc * 2) = (m, sc1)" using Suc.prems(4) True by simp
    from Suc.IH[OF a b _ c] Suc.prems(3) show ?thesis by simp
  next
    case False
    show ?thesis
    proof (cases "x < 1")
      case True
      have a: "1 / 2 ^ n \<le> x * 2" using Suc.prems(1) by (simp add: field_simps)
      have "(2::real) \<le> 2 ^ Suc n" by simp
      with True have b: "x * 2 < 2 ^ Suc n" by linarith
      have c: "normalise n (x * 2) (sc / 2) = (m, sc1)" using Suc.prems(4) True False by simp
      from Suc.IH[OF a b _ c] Suc.prems(3) show ?thesis by simp
    next
      case False
      with \<open>\<not> 2 \<le> x\<close> Suc.prems(3,4) show ?thesis by simp
    qed
  qed
qed

lemma double_round_zero: "double_round 0 = 0"
  by (simp add: double_round_def)

lemma double_round_error:
  assumes "1 / 2 ^ 1100 \<le> \<bar>x\<bar>" "\<bar>x\<bar> < 2 ^ 1101"
  shows "\<bar>double_round x - x\<bar> \<le> \<bar>x\<bar> / 2 ^ 53"
proof -
  have nz: "x \<noteq> 0" using assms(1) by auto
  obtain m sc1 where n: "normalise 1100 \<bar>x\<bar> 1 = (m, sc1)" by (cases "normalise 1100 \<bar>x\<bar> 1")
  have b: "\<bar>x\<bar> < 2 ^ Suc 1100" using assms(2) by simp
  from normalise_spec[OF assms(1) b _ n]
  have m: "1 \<le> m" "m < 2" "m * sc1 = \<bar>x\<bar>" "0 < sc1" by simp_all
  define r where "r = real_of_int (py_round (m * 2 ^ 52)) / 2 ^ 52 * sc1"
  have dr: "double_round x = (if x < 0 then - r else r)"
    using nz n by (simp add: double_round_def r_def Let_def)
  define D where "D = real_of_int (py_round (m * 2 ^ 52)) - m * 2 ^ 52"
  define c where "c = sc1 / 2 ^ 52"
  have cpos: "0 < c" using m(4) by (simp add: c_def)
  have D: "\<bar>D\<bar> \<le> 1 / 2" unfolding D_def by (rule py_round_error)
  have "r - m * sc1 = D * c" by (simp add: r_def D_def c_def field_simps)
  then have "\<bar>r - m * sc1\<bar> = \<bar>D\<bar> * c" using cpos by (simp add: abs_mult)
  also have "\<dots> \<le> 1 / 2 * c" using D cpos by (intro mult_right_mono) simp_all
  also have "1 / 2 * c = sc1 / 2 ^ 53" by (simp add: c_def)
  also have "sc1 / 2 ^ 53 \<le> m * sc1 / 2 ^ 53"
  proof -
    have "sc1 \<le> m * sc1" using m(1,4) by simp
    then show ?thesis by (simp add: divide_right_mono)
  qed
  finally have "\<bar>r - \<bar>x\<bar>\<bar> \<le> \<bar>x\<bar> / 2 ^ 53" using m(3) by simp
  then show ?thesis unfolding dr by (cases "x < 0") (simp_all add: abs_minus_commute)
qed


lemma double_round_close:
  assumes "x = 0 \<or> 1 / 2 ^ 100 \<le> \<bar>x\<bar>" "\<bar>x\<bar> \<le> 2 ^ 100"
  shows "\<bar>double_round x - x\<bar> \<le> \<bar>x\<bar> / 2 ^ 53"
proof (cases "x = 0")
  case True
  then show ?thesis by (simp add: double_round_zero)
next
  case False
  have "(2::real) ^ 100 \<le> 2 ^ 1100" by (rule power_increasing) simp_all
  then have "(1::real) / 2 ^ 1100 \<le> 1 / 2 ^ 100" by (simp add: frac_le)
  with False assms(1) have lo: "1 / 2 ^ 1100 \<le> \<bar>x\<bar>" by linarith
  have "(2::real) ^ 100 < 2 ^ 1101" by (rule power_strict_increasing) simp_all
  with assms(2) have hi: "\<bar>x\<bar> < 2 ^ 1101" by linarith
  from lo hi show ?thesis by (rule double_round_error)
qed

lemma schedule_exact_lower:
  assumes "1 \<le> mevals" "0 \<le> nevals" "nevals \<le> mevals"
  shows "real_of_int (min 4 isize) \<le> schedule_exact isize mevals nevals"
proof -
  define a where "a = real_of_int (4 - isize)"
  define m where "m = real_of_int mevals"
  define n where "n = real_of_int nevals"
  have m: "1 \<le> m" and n: "0 \<le> n" "n \<le> m" using assms by (simp_all add: m_def n_def)
  have r: "0 \<le> n / m" "n / m \<le> 1" using m n by simp_all
  have e: "schedule_exact isize mevals nevals = a * (n / m) + real_of_int isize"
    by (simp add: schedule_exact_def a_def m_def n_def)
  show ?thesis
  proof (cases "4 \<le> isize")
    case True
    then have "a \<le> 0" by (simp add: a_def)
    then have "a * 1 \<le> a * (n / m)" using r(2) by (rule mult_left_mono_neg[rotated])
    then have "a + real_of_int isize \<le> schedule_exact isize mevals nevals" unfolding e by simp
    moreover have "a + real_of_int isize = 4" by (simp add: a_def)
    ultimately show ?thesis using True by (simp add: min_def)
  next
    case False
    then have "0 \<le> a" by (simp add: a_def)
    then have "0 \<le> a * (n / m)" using r(1) by (rule mult_nonneg_nonneg)
    then show ?thesis unfolding e using False by (simp add: min_def)
  qed
qed

lemma schedule_accuracy:
  assumes "1 \<le> isize" "isize \<le> 2 ^ 40" "1 \<le> mevals" "mevals \<le> 2 ^ 40"
    and "0 \<le> nevals" "nevals \<le> mevals"
  shows "\<bar>schedule isize mevals nevals - schedule_exact isize mevals nevals\<bar> \<le> 1 / 4"
proof -
  define u :: real where "u = 1 / 2 ^ 53"
  define a where "a = real_of_int (4 - isize)"
  define m where "m = real_of_int mevals"
  define n where "n = real_of_int nevals"
  define i where "i = real_of_int isize"
  define x1 where "x1 = a / m"
  define q where "q = double_round x1"
  define n1 where "n1 = double_round n"
  define pr where "pr = q * n1"
  define p where "p = double_round pr"
  define i1 where "i1 = double_round i"
  define sm where "sm = p + i1"
  define v where "v = double_round sm"
  define E where "E = x1 * n + i"
  have sched: "schedule isize mevals nevals = v"
    by (simp add: schedule_def v_def sm_def p_def pr_def q_def n1_def i1_def x1_def a_def m_def n_def i_def)
  have exact: "schedule_exact isize mevals nevals = E"
    by (simp add: schedule_exact_def E_def x1_def a_def m_def n_def i_def)
  have u: "0 < u" "u \<le> 1 / 2" "2 ^ 40 * u = 1 / 2 ^ 13" by (simp_all add: u_def)
  have m: "1 \<le> m" "m \<le> 2 ^ 40"
  proof -
    show "1 \<le> m" using assms(3) by (simp add: m_def)
    have "real_of_int mevals \<le> real_of_int (2 ^ 40)" using assms(4) by (simp only: of_int_le_iff)
    then show "m \<le> 2 ^ 40" by (simp add: m_def)
  qed
  have n: "0 \<le> n" "n \<le> m" "n = 0 \<or> 1 \<le> n"
    using assms(5,6) unfolding n_def m_def by auto
  have i: "1 \<le> i" "i \<le> 2 ^ 40"
  proof -
    show "1 \<le> i" using assms(1) by (simp add: i_def)
    have "real_of_int isize \<le> real_of_int (2 ^ 40)" using assms(2) by (simp only: of_int_le_iff)
    then show "i \<le> 2 ^ 40" by (simp add: i_def)
  qed
  have a: "\<bar>a\<bar> \<le> 2 ^ 40" "a = 0 \<or> 1 \<le> \<bar>a\<bar>" "a + i = 4"
  proof -
    have "\<bar>4 - isize\<bar> \<le> 2 ^ 40" using assms(1,2) by simp
    then have "real_of_int \<bar>4 - isize\<bar> \<le> real_of_int (2 ^ 40)" by (simp only: of_int_le_iff)
    then show "\<bar>a\<bar> \<le> 2 ^ 40" by (simp add: a_def)
    have "4 - isize = 0 \<or> 1 \<le> \<bar>4 - isize\<bar>" by linarith
    then have "real_of_int (4 - isize) = 0 \<or> real_of_int 1 \<le> real_of_int \<bar>4 - isize\<bar>"
      by (simp only: of_int_eq_0_iff of_int_le_iff)
    then show "a = 0 \<or> 1 \<le> \<bar>a\<bar>" by (simp add: a_def)
    show "a + i = 4" by (simp add: a_def i_def)
  qed
  have x1: "\<bar>x1\<bar> \<le> \<bar>a\<bar>" "\<bar>x1\<bar> * n \<le> \<bar>a\<bar>" "x1 = 0 \<or> 1 / 2 ^ 40 \<le> \<bar>x1\<bar>"
  proof -
    have ax: "\<bar>x1\<bar> = \<bar>a\<bar> / m" using m(1) by (simp add: x1_def)
    have "\<bar>a\<bar> / m \<le> \<bar>a\<bar> / 1" using m(1) by (intro divide_left_mono) simp_all
    then show "\<bar>x1\<bar> \<le> \<bar>a\<bar>" using ax by simp
    have "\<bar>x1\<bar> * n = \<bar>a\<bar> * (n / m)" using ax by simp
    also have "\<dots> \<le> \<bar>a\<bar> * 1" using n(1,2) m(1) by (intro mult_left_mono) simp_all
    finally show "\<bar>x1\<bar> * n \<le> \<bar>a\<bar>" by simp
    show "x1 = 0 \<or> 1 / 2 ^ 40 \<le> \<bar>x1\<bar>"
    proof (cases "a = 0")
      case True
      then show ?thesis by (simp add: x1_def)
    next
      case False
      with a(2) have "1 \<le> \<bar>a\<bar>" by simp
      then have "1 / m \<le> \<bar>a\<bar> / m" using m(1) by (intro divide_right_mono) simp_all
      moreover have "1 / 2 ^ 40 \<le> 1 / m" using m by (intro divide_left_mono) simp_all
      ultimately show ?thesis using ax by linarith
    qed
  qed
  have q: "\<bar>q - x1\<bar> \<le> \<bar>x1\<bar> * u"
  proof -
    have "\<bar>x1\<bar> \<le> 2 ^ 100"
    proof -
      have "(2::real) ^ 40 \<le> 2 ^ 100" by (rule power_increasing) simp_all
      with x1(1) a(1) show ?thesis by linarith
    qed
    moreover have "x1 = 0 \<or> 1 / 2 ^ 100 \<le> \<bar>x1\<bar>"
    proof -
      have "(2::real) ^ 40 \<le> 2 ^ 100" by (rule power_increasing) simp_all
      then have "(1::real) / 2 ^ 100 \<le> 1 / 2 ^ 40" by (simp add: frac_le)
      with x1(3) show ?thesis by linarith
    qed
    ultimately have "\<bar>double_round x1 - x1\<bar> \<le> \<bar>x1\<bar> / 2 ^ 53" by (intro double_round_close)
    then show ?thesis by (simp add: q_def u_def)
  qed
  have p100: "(2::real) ^ 43 \<le> 2 ^ 100" by (rule power_increasing) simp_all
  have p40: "(2::real) ^ 40 \<le> 2 ^ 100" by (rule power_increasing) simp_all
  have p42: "(2::real) ^ 42 \<le> 2 ^ 100" by (rule power_increasing) simp_all
  have q100: "(1::real) / 2 ^ 100 \<le> 1 / 2 ^ 43" using p100 by (simp add: frac_le)
  have xu: "\<bar>x1\<bar> * u \<le> \<bar>x1\<bar> / 2"
  proof -
    have "\<bar>x1\<bar> * u \<le> \<bar>x1\<bar> * (1 / 2)" using u(2) by (intro mult_left_mono) simp_all
    then show ?thesis by simp
  qed
  have qb: "\<bar>q\<bar> \<le> 2 * \<bar>x1\<bar>" "\<bar>x1\<bar> / 2 \<le> \<bar>q\<bar>" using q xu by linarith+
  have n1: "\<bar>n1 - n\<bar> \<le> n * u"
  proof -
    have "\<bar>n\<bar> \<le> 2 ^ 100" using n(1,2) m(2) p40 by linarith
    moreover have "n = 0 \<or> 1 / 2 ^ 100 \<le> \<bar>n\<bar>"
    proof -
      have "(1::real) / 2 ^ 100 \<le> 1" by simp
      with n(3) show ?thesis by linarith
    qed
    ultimately have "\<bar>double_round n - n\<bar> \<le> \<bar>n\<bar> / 2 ^ 53" by (intro double_round_close)
    then show ?thesis using n(1) by (simp add: n1_def u_def)
  qed
  have nu: "n * u \<le> n / 2"
  proof -
    have "n * u \<le> n * (1 / 2)" using u(2) n(1) by (intro mult_left_mono) simp_all
    then show ?thesis by simp
  qed
  have n1b: "0 \<le> n1" "n1 \<le> 2 * n" "n / 2 \<le> n1" using n1 nu n(1) by linarith+
  have prod_err: "\<bar>pr - x1 * n\<bar> \<le> 3 * \<bar>a\<bar> * u"
  proof -
    have "pr - x1 * n = q * (n1 - n) + n * (q - x1)" by (simp add: pr_def algebra_simps)
    then have "\<bar>pr - x1 * n\<bar> \<le> \<bar>q\<bar> * \<bar>n1 - n\<bar> + n * \<bar>q - x1\<bar>"
      using abs_triangle_ineq[of "q * (n1 - n)" "n * (q - x1)"] n(1) by (simp add: abs_mult)
    also have "\<bar>q\<bar> * \<bar>n1 - n\<bar> \<le> (2 * \<bar>x1\<bar>) * (n * u)"
      using qb(1) n1 by (intro mult_mono) simp_all
    also have "n * \<bar>q - x1\<bar> \<le> n * (\<bar>x1\<bar> * u)" using q n(1) by (intro mult_left_mono) simp_all
    finally have "\<bar>pr - x1 * n\<bar> \<le> 3 * (\<bar>x1\<bar> * n) * u" by (simp add: algebra_simps)
    also have "\<dots> \<le> 3 * \<bar>a\<bar> * u" using x1(2) u(1) by (intro mult_right_mono mult_left_mono) simp_all
    finally show ?thesis .
  qed
  have prod_abs: "\<bar>pr\<bar> \<le> 4 * \<bar>a\<bar>"
  proof -
    have "\<bar>pr\<bar> = \<bar>q\<bar> * n1" using n1b(1) by (simp add: pr_def abs_mult)
    also have "\<dots> \<le> (2 * \<bar>x1\<bar>) * (2 * n)" using qb(1) n1b by (intro mult_mono) simp_all
    also have "\<dots> = 4 * (\<bar>x1\<bar> * n)" by simp
    also have "\<dots> \<le> 4 * \<bar>a\<bar>" using x1(2) by simp
    finally show ?thesis .
  qed
  have prod_lo: "pr = 0 \<or> 1 / 2 ^ 43 \<le> \<bar>pr\<bar>"
  proof (cases "x1 = 0 \<or> n = 0")
    case True
    then have "pr = 0" by (auto simp: pr_def q_def n1_def double_round_zero)
    then show ?thesis ..
  next
    case False
    with x1(3) n(3) have x: "1 / 2 ^ 40 \<le> \<bar>x1\<bar>" and nn: "1 \<le> n" by simp_all
    have "1 / 2 ^ 41 \<le> \<bar>q\<bar>" using qb(2) x by simp
    moreover have "1 / 2 \<le> n1" using n1b(3) nn by simp
    ultimately have "(1 / 2 ^ 41) * (1 / 2) \<le> \<bar>q\<bar> * n1" by (intro mult_mono) simp_all
    moreover have "\<bar>pr\<bar> = \<bar>q\<bar> * n1" using n1b(1) by (simp add: pr_def abs_mult)
    ultimately have "1 / 2 ^ 43 \<le> \<bar>pr\<bar>" by simp
    then show ?thesis ..
  qed
  have p: "\<bar>p - pr\<bar> \<le> 4 * \<bar>a\<bar> * u"
  proof -
    have "\<bar>pr\<bar> \<le> 2 ^ 100"
    proof -
      have "4 * \<bar>a\<bar> \<le> 2 ^ 43" using a(1) by simp
      with prod_abs p100 show ?thesis by linarith
    qed
    moreover have "pr = 0 \<or> 1 / 2 ^ 100 \<le> \<bar>pr\<bar>" using prod_lo q100 by linarith
    ultimately have "\<bar>double_round pr - pr\<bar> \<le> \<bar>pr\<bar> / 2 ^ 53" by (intro double_round_close)
    then have "\<bar>p - pr\<bar> \<le> \<bar>pr\<bar> * u" by (simp add: p_def u_def)
    also have "\<dots> \<le> (4 * \<bar>a\<bar>) * u" using prod_abs u(1) by (intro mult_right_mono) simp_all
    finally show ?thesis by simp
  qed
  have i1: "\<bar>i1 - i\<bar> \<le> i * u"
  proof -
    have "\<bar>i\<bar> \<le> 2 ^ 100" using i p40 by linarith
    moreover have "i = 0 \<or> 1 / 2 ^ 100 \<le> \<bar>i\<bar>"
    proof -
      have "(1::real) / 2 ^ 100 \<le> 1" by simp
      with i(1) show ?thesis by linarith
    qed
    ultimately have "\<bar>double_round i - i\<bar> \<le> \<bar>i\<bar> / 2 ^ 53" by (intro double_round_close)
    then show ?thesis using i(1) by (simp add: i1_def u_def)
  qed
  have au: "\<bar>a\<bar> * u \<le> 1 / 2 ^ 13"
  proof -
    have "\<bar>a\<bar> * u \<le> 2 ^ 40 * u" using a(1) u(1) by (intro mult_right_mono) simp_all
    then show ?thesis by (simp only: u(3))
  qed
  have iu: "i * u \<le> 1 / 2 ^ 13"
  proof -
    have "i * u \<le> 2 ^ 40 * u" using i(2) u(1) by (intro mult_right_mono) simp_all
    then show ?thesis by (simp only: u(3))
  qed
  have sm_err: "\<bar>sm - E\<bar> \<le> 8 / 2 ^ 13"
  proof -
    have "sm - E = (p - pr) + (pr - x1 * n) + (i1 - i)" by (simp add: sm_def E_def)
    then have "\<bar>sm - E\<bar> \<le> \<bar>p - pr\<bar> + \<bar>pr - x1 * n\<bar> + \<bar>i1 - i\<bar>" by linarith
    with p prod_err i1 au iu show ?thesis by linarith
  qed
  have E: "1 \<le> E" "E \<le> 2 ^ 41"
  proof -
    have "real_of_int (min 4 isize) \<le> schedule_exact isize mevals nevals"
      using assms(3,5,6) by (rule schedule_exact_lower)
    moreover have "1 \<le> real_of_int (min 4 isize)" using assms(1) by (simp add: min_def)
    ultimately show "1 \<le> E" using exact by linarith
    have "x1 * n \<le> \<bar>x1\<bar> * n" using n(1) by (intro mult_right_mono) simp_all
    with x1(2) a(1) i(2) show "E \<le> 2 ^ 41" unfolding E_def by simp
  qed
  have sm: "1 / 2 \<le> sm" "sm \<le> 2 ^ 42"
  proof -
    have e8: "(8::real) / 2 ^ 13 \<le> 1 / 2" by simp
    show "1 / 2 \<le> sm" using sm_err E(1) e8 by linarith
    have "(2::real) ^ 41 + 1 \<le> 2 ^ 42" by simp
    with sm_err E(2) e8 show "sm \<le> 2 ^ 42" by linarith
  qed
  have v: "\<bar>v - sm\<bar> \<le> 4 / 2 ^ 13"
  proof -
    have "\<bar>sm\<bar> \<le> 2 ^ 100" using sm p42 by linarith
    moreover have "sm = 0 \<or> 1 / 2 ^ 100 \<le> \<bar>sm\<bar>"
    proof -
      have "(1::real) / 2 ^ 100 \<le> 1 / 2" by simp
      with sm(1) show ?thesis by linarith
    qed
    ultimately have "\<bar>double_round sm - sm\<bar> \<le> \<bar>sm\<bar> / 2 ^ 53" by (intro double_round_close)
    then have "\<bar>v - sm\<bar> \<le> sm * u" using sm(1) by (simp add: v_def u_def)
    also have "\<dots> \<le> 2 ^ 42 * u" using sm(2) u(1) by (intro mult_right_mono) simp_all
    also have "\<dots> = 4 / 2 ^ 13" by (simp add: u_def)
    finally show ?thesis .
  qed
  have "\<bar>v - E\<bar> \<le> \<bar>v - sm\<bar> + \<bar>sm - E\<bar>" by linarith
  with v sm_err have "\<bar>v - E\<bar> \<le> 4 / 2 ^ 13 + 8 / 2 ^ 13" by linarith
  moreover have "(4::real) / 2 ^ 13 + 8 / 2 ^ 13 \<le> 1 / 4" by simp
  ultimately show ?thesis unfolding sched exact by linarith
qed

lemma target_size_lower:
  assumes "1 \<le> isize" "isize \<le> 2 ^ 40" "1 \<le> mevals" "mevals \<le> 2 ^ 40"
    and "0 \<le> nevals" "nevals \<le> mevals"
  shows "min 4 isize \<le> target_size isize mevals nevals"
proof -
  have "real_of_int (min 4 isize) \<le> schedule_exact isize mevals nevals"
    using assms(3,5,6) by (rule schedule_exact_lower)
  moreover have "\<bar>schedule isize mevals nevals - schedule_exact isize mevals nevals\<bar> \<le> 1 / 4"
    using assms by (rule schedule_accuracy)
  ultimately have "real_of_int (min 4 isize) - 1 / 2 < schedule isize mevals nevals" by linarith
  then show ?thesis unfolding target_size_def by (rule py_round_above)
qed

lemma max_iters_loop_returns:
  assumes "0 < isize" "isize \<le> 2 ^ 40" "0 < mevals" "mevals \<le> 2 ^ 40" "0 \<le> i"
  shows "\<exists>n. max_iters_loop isize mevals i iters = Some n"
  using assms(5)
proof (induction "nat (mevals - i)" arbitrary: i iters rule: less_induct)
  case less
  show ?case
  proof (cases "i < mevals")
    case False
    then show ?thesis by (subst max_iters_loop.simps) simp
  next
    case True
    have "min 4 isize \<le> target_size isize mevals i"
      by (rule target_size_lower) (use assms(1-4) less.prems True in simp_all)
    then have t: "1 \<le> target_size isize mevals i" using assms(1) by (simp add: min_def split: if_splits)
    have "nat (mevals - (i + target_size isize mevals i)) < nat (mevals - i)"
      using True t by simp
    moreover have "0 \<le> i + target_size isize mevals i" using less.prems t by simp
    ultimately obtain n where
      "max_iters_loop isize mevals (i + target_size isize mevals i) (iters + 1) = Some n"
      using less.hyps by blast
    with True show ?thesis by (subst max_iters_loop.simps) simp
  qed
qed

section \<open>Archive and memory steps\<close>

lemma length_sample_pool:
  "n \<le> length pool \<Longrightarrow> length (sample_pool src pos pool n) = n"
proof (induction n arbitrary: pos pool)
  case 0
  then show ?case by simp
next
  case (Suc n)
  then obtain x xs where p: "pool = x # xs" by (cases pool) auto
  have "length (butlast ((x # xs)[src pos mod length (x # xs) := last (x # xs)])) = length xs"
    by (simp only: length_butlast length_list_update) simp
  then have "n \<le> length (butlast ((x # xs)[src pos mod length (x # xs) := last (x # xs)]))"
    using Suc.prems p by simp
  from Suc.IH[OF this] show ?case unfolding p by (simp only: sample_pool.simps Let_def list.size)
qed

lemma adapt_archive_memory_no_success:
  assumes "adapt_archive_memory env s pop [] c_fit cr f pos = Inr (arch, mcr, mf, k1, pos1)"
  shows "arch = archive s" "mcr = m_cr s" "mf = m_f s" "k1 = k s"
  using assms
  by (auto simp: adapt_archive_memory_def Let_def np_take_def)

section \<open>The generation loop and the states it passes through\<close>

lemma reaches_prepend:
  assumes "reaches env s1 t" "running s" "generation env s = Some (Inr s1)"
  shows "reaches env s t"
  using assms
proof (induction rule: reaches.induct)
  case (start s1)
  have "reaches env s s" by (rule reaches.start)
  then show ?case using start by (rule reaches.next_generation)
next
  case (next_generation s1 t u)
  then show ?case by (blast intro: reaches.next_generation)
qed


lemma generations_upto_reaches:
  "generations_upto n env s = Some (Inr t) \<Longrightarrow> reaches env s t"
proof (induction n arbitrary: s)
  case 0
  then show ?case by (auto intro: reaches.start)
next
  case (Suc n)
  show ?case
  proof (cases "running s")
    case False
    with Suc.prems show ?thesis by (auto intro: reaches.start)
  next
    case True
    with Suc.prems obtain s1 where g: "generation env s = Some (Inr s1)"
      and l: "generations_upto n env s1 = Some (Inr t)"
      by (auto split: option.splits sum.splits)
    from Suc.IH[OF l] show ?thesis by (rule reaches_prepend) (rule True, rule g)
  qed
qed





lemma reaches_constants:
  assumes "reaches env s t"
  shows "init_size t = init_size s \<and> max_evals t = max_evals s \<and> memory_size t = memory_size s
         \<and> precision t = precision s"
  using assms by (induction rule: reaches.induct) (simp_all add: generation_sizes)


lemma initial_state_facts:
  assumes "initial_state env psize isize bnds msize prec mevac mevals seed = Inr s0"
  shows "population_size s0 = init_size s0" "0 < init_size s0" "0 < max_evals s0"
    "archive s0 = []" "precision s0 = prec" "0 < converge_countdown s0"
    "psize = PyInt (init_size s0)" "mevals = PyInt (max_evals s0)" "num_evals s0 = init_size s0"
proof -
  from assms obtain p i m where c: "check_parameters psize isize mevals mevac bnds seed = Inr (p, i, m)"
    by (auto simp: initial_state_def split: sum.splits)
  from c have pos: "0 < p" "0 < i" "0 < m" and eq: "psize = PyInt p" "mevals = PyInt m"
    by (auto simp: check_parameters_def positive_int_def split: sum.splits pyval.splits if_splits)
  have cd: "0 < initial_countdown mevac i"
    using pos(2)
    by (auto simp: initial_countdown_def get_default_params_max_evals_after_converge_def
        split: pyval.splits)
  from assms c have s0: "population_size s0 = p" "init_size s0 = p" "max_evals s0 = m"
    "archive s0 = []" "precision s0 = prec" "converge_countdown s0 = initial_countdown mevac i"
    "num_evals s0 = p"
    by (auto simp: initial_state_def Let_def split: sum.splits if_splits)
  show "population_size s0 = init_size s0" "0 < init_size s0" "0 < max_evals s0"
    "archive s0 = []" "precision s0 = prec" "0 < converge_countdown s0"
    "psize = PyInt (init_size s0)" "mevals = PyInt (max_evals s0)" "num_evals s0 = init_size s0"
    using s0 pos eq cd by simp_all
qed

lemma generation_population_size_le:
  assumes "generation env s = Some (Inr t)"
  shows "population_size t \<le> population_size s"
  using generation_sizes(6)[OF assms] by (simp split: if_splits)

lemma reaches_population_size:
  assumes "reaches env s t"
  shows "population_size t \<le> population_size s"
  using assms
proof (induction rule: reaches.induct)
  case (start s)
  show ?case by simp
next
  case (next_generation s t u)
  from generation_population_size_le[OF next_generation(3)] next_generation(4)
  show ?case by simp
qed

lemma reaches_floor:
  assumes "reaches env s t" "4 \<le> init_size s" "init_size s \<le> 2 ^ 40"
    and "0 < max_evals s" "max_evals s \<le> 2 ^ 40" "0 \<le> num_evals s"
    and "4 \<le> population_size s \<or> max_evals s < num_evals s"
  shows "(4 \<le> population_size t \<or> max_evals t < num_evals t) \<and> 0 \<le> num_evals t"
  using assms
proof (induction rule: reaches.induct)
  case (start s)
  then show ?case by simp
next
  case (next_generation s t u)
  have c: "init_size t = init_size s" "max_evals t = max_evals s"
    using reaches_constants[OF next_generation(1)] by simp_all
  from next_generation
  have ih: "4 \<le> population_size t \<or> max_evals t < num_evals t" "0 \<le> num_evals t" by simp_all
  with next_generation(2) have four: "4 \<le> population_size t" by (simp add: running_def)
  note g = generation_sizes[OF next_generation(3)]
  have nn: "0 \<le> num_evals u" using g(5) ih(2) four by simp
  show ?case
  proof (cases "num_evals t + population_size t \<le> max_evals t")
    case True
    have "min 4 (init_size t) \<le> target_size (init_size t) (max_evals t) (num_evals t + population_size t)"
      by (rule target_size_lower) (use next_generation(5-8) c True ih(2) four in simp_all)
    then have "4 \<le> target_size (init_size t) (max_evals t) (num_evals t + population_size t)"
      using next_generation(5) c by simp
    with four g(6) nn show ?thesis by simp
  next
    case False
    with g(2,5) nn show ?thesis by simp
  qed
qed

lemma generation_archive:
  assumes "generation env s = Some (Inr t)"
  shows "\<exists>cr f pos pop indexes c_fit.
           sample_parameters env s = Some (Inr (cr, f, pos))
         \<and> variation env s cr f pos = (pop, indexes, c_fit)
         \<and> (if indexes = [] then archive t = archive s
            else int (length (archive t)) \<le> population_size s)"
proof -
  from assms obtain cr f pos pop indexes c_fit arch mcr mf k1 pos1 s1 where
    sp: "sample_parameters env s = Some (Inr (cr, f, pos))"
    and v: "variation env s cr f pos = (pop, indexes, c_fit)"
    and aam: "adapt_archive_memory env s pop indexes c_fit cr f pos = Inr (arch, mcr, mf, k1, pos1)"
    and a: "adapt_population_size env
       (s\<lparr>population := pop, num_evals := num_evals s + population_size s,
          archive := arch, m_cr := mcr, m_f := mf, k := k1, rng_pos := pos1\<rparr>)
       indexes c_fit = Inr s1"
    and m: "monitor s1 = Inr t"
    by (rule generation_cases)
  have at: "archive t = arch"
    using adapt_population_size_frame(6)[OF a] monitor_frame(7)[OF m] by simp
  have "if indexes = [] then arch = archive s else int (length arch) \<le> population_size s"
    using aam
    by (auto simp: adapt_archive_memory_def Let_def random_sample_def np_take_def length_sample_pool
        split: sum.splits if_splits prod.splits)
  with sp v at show ?thesis by blast
qed

lemma generation_archive_length:
  assumes "generation env s = Some (Inr t)"
  shows "int (length (archive t)) \<le> max (int (length (archive s))) (population_size s)"
  using generation_archive[OF assms] by (auto split: if_splits)

lemma reaches_archive:
  assumes "reaches env s t" "population_size s \<le> init_size s"
    "int (length (archive s)) \<le> init_size s"
  shows "int (length (archive t)) \<le> init_size s"
  using assms
proof (induction rule: reaches.induct)
  case (start s)
  then show ?case by simp
next
  case (next_generation s t u)
  have "population_size t \<le> init_size s"
    using reaches_population_size[OF next_generation(1)] next_generation(5) by simp
  moreover have "int (length (archive t)) \<le> init_size s" using next_generation by simp
  ultimately show ?case using generation_archive_length[OF next_generation(3)] by simp
qed



section \<open>Parameter checks\<close>

lemma check_parameters_nonpositive:
  assumes "mevac = PyInt n \<and> n \<le> 0 \<or> mevac = PyFloat x \<and> x \<le> 0"
  shows "\<exists>msg. check_parameters psize isize mevals mevac bnds seed = Inl (ValueError msg)"
proof -
  have m: "check_max_evals_after_converge mevac
        = Inl (ValueError ''max_evals_after_converge must be None or a positive integer.'')"
    using assms by (auto simp: check_max_evals_after_converge_def)
  have p: "\<And>v msg. (\<exists>n. positive_int v msg = Inr n) \<or> positive_int v msg = Inl (ValueError msg)"
    by (simp add: positive_int_def split: pyval.splits)
  show ?thesis
    unfolding check_parameters_def m
    using p[of psize "''population_size must be a positive integer.''"]
      p[of isize "''individual_size must be a positive integer.''"]
      p[of mevals "''max_iter must be a positive integer.''"]
    by (auto split: sum.splits)
qed

lemma np_min_nonempty: "xs \<noteq> [] \<Longrightarrow> \<exists>lowest. np_min xs = Inr lowest"
  by (cases xs) (simp_all add: np_min_def)

lemma initial_state_float_countdown:
  assumes "0 < x" "0 < p" "0 < i" "0 < m" "int (length bnds) = i" "0 \<le> msize"
    and "seed = PyNone \<or> seed = PyInt sd \<and> 0 \<le> sd \<and> sd < 2 ^ 32"
  shows "\<exists>s0. initial_state env (PyInt p) (PyInt i) bnds msize prec (PyFloat x) (PyInt m) seed = Inr s0
            \<and> converge_countdown s0 = 2 * i"
proof -
  have c: "check_parameters (PyInt p) (PyInt i) (PyInt m) (PyFloat x) bnds seed = Inr (p, i, m)"
    using assms by (auto simp: check_parameters_def positive_int_def check_max_evals_after_converge_def)
  have "apply_fitness env (init_population env p) \<noteq> []"
    using assms(2) by (simp add: apply_fitness_def init_population_def)
  then obtain lowest where l: "np_min (apply_fitness env (init_population env p)) = Inr lowest"
    using np_min_nonempty by blast
  show ?thesis
    using assms(6)
    by (simp add: initial_state_def c l Let_def initial_countdown_def
        get_default_params_max_evals_after_converge_def)
qed

section \<open>The resampling loop and its bounded copies\<close>

lemma resample_passes_sound:
  "resample_passes n env msize mf f pos = Some r \<Longrightarrow> resample_f env msize mf f pos = Some r"
proof (induction n arbitrary: f pos)
  case 0
  then show ?case by (subst resample_f.simps) (simp split: if_splits)
next
  case (Suc n)
  show ?case
  proof (cases "length (filter invalid f) \<noteq> 0")
    case False
    with Suc.prems show ?thesis by (subst resample_f.simps) simp
  next
    case True
    show ?thesis
    proof (cases "redraw env msize mf f pos")
      case (Inl e)
      with True Suc.prems have "r = Inl e" by simp
      with True Inl show ?thesis by (subst resample_f.simps) simp
    next
      case (Inr fp)
      obtain f1 pos1 where fp: "fp = (f1, pos1)" by (cases fp)
      from Suc.prems True Inr fp have "resample_passes n env msize mf f1 pos1 = Some r" by simp
      from Suc.IH[OF this] True Inr fp show ?thesis by (subst resample_f.simps) simp
    qed
  qed
qed

lemma resample_f_passes:
  fixes r :: "error + npfloat list \<times> nat"
  assumes "resample_f env msize mf f pos = Some r"
  shows "\<exists>n. resample_passes n env msize mf f pos = Some r"
proof (rule resample_f.raw_induct
    [where P = "\<lambda>env msize mf f pos r. \<exists>n. resample_passes n env msize mf f pos = Some r",
     OF _ assms])
  fix loop :: "'a env \<Rightarrow> int \<Rightarrow> npfloat list \<Rightarrow> npfloat list \<Rightarrow> nat \<Rightarrow> (error + npfloat list \<times> nat) option"
    and env msize mf f pos r
  assume IH: "\<And>env msize mf f pos r. loop env msize mf f pos = Some r
                \<Longrightarrow> \<exists>n. resample_passes n env msize mf f pos = Some r"
    and body: "(if length (filter invalid f) \<noteq> 0 then
                  (case redraw env msize mf f pos of
                     Inl e \<Rightarrow> Some (Inl e)
                   | Inr (f1, pos1) \<Rightarrow> loop env msize mf f1 pos1)
                else Some (Inr (f, pos))) = Some r"
  show "\<exists>n. resample_passes n env msize mf f pos = Some r"
  proof (cases "length (filter invalid f) \<noteq> 0")
    case False
    with body have "resample_passes 0 env msize mf f pos = Some r" by simp
    then show ?thesis ..
  next
    case True
    show ?thesis
    proof (cases "redraw env msize mf f pos")
      case (Inl e)
      with True body have "r = Inl e" by simp
      with True Inl have "resample_passes (Suc 0) env msize mf f pos = Some r" by simp
      then show ?thesis ..
    next
      case (Inr fp)
      obtain f1 pos1 where fp: "fp = (f1, pos1)" by (cases fp)
      from body True Inr fp have "loop env msize mf f1 pos1 = Some r" by simp
      from IH[OF this] obtain n where "resample_passes n env msize mf f1 pos1 = Some r" ..
      with True Inr fp have "resample_passes (Suc n) env msize mf f pos = Some r" by simp
      then show ?thesis ..
    qed
  qed
qed

lemma resample_passes_valid:
  "resample_passes n env msize mf f pos = Some (Inr (f1, pos1)) \<Longrightarrow> filter invalid f1 = []"
proof (induction n arbitrary: f pos)
  case 0
  then show ?case by (simp split: if_splits)
next
  case (Suc n)
  then show ?case by (auto split: if_splits sum.splits)
qed

section \<open>Evaluating the concrete runs\<close>

lemma stall_start_initial:
  "demo_start plain_env 4 100 6 (PyFloat 100) (PyInt 1) = Inr stall_start"
  by code_simp


lemma shrink_start_initial:
  "demo_start plain_env 5 10 6 (PyFloat (1 / 1000000)) (PyInt 2) = Inr shrink_start"
  by code_simp

lemma shrink_generation: "generation plain_env shrink_start = Some (Inr shrink_end)"
  by code_simp



lemma cursor_five_generations:
  "generations_upto 5 cursor_env cursor_start = Some (Inr cursor_state)"
  by code_simp

text \<open>
  With every Cauchy variate \<open>-10\<close>, a pass over four invalid entries leaves four invalid
  entries, so no number of passes suffices.
\<close>

lemma low_f_redraw:
  "redraw low_f_env 1 [Fin (1 / 2)] (replicate 4 (Fin (- (1 / 2)))) pos
     = Inr (replicate 4 (Fin (- (1 / 2))), pos + 8)"
  by (simp add: redraw_def invalid_def random_choice_def draw_indexes_def np_take_def rvs_def
      low_f_env_def demo_env_def numeral_eq_Suc)

lemma low_f_passes:
  "resample_passes n low_f_env 1 [Fin (1 / 2)] (replicate 4 (Fin (- (1 / 2)))) pos = None"
proof (induction n arbitrary: pos)
  case 0
  show ?case by (simp add: invalid_def)
next
  case (Suc n)
  have "length (filter invalid (replicate 4 (Fin (- (1 / 2))))) \<noteq> 0" by (simp add: invalid_def)
  then show ?case using Suc.IH by (simp add: low_f_redraw)
qed

lemma low_f_resample:
  "resample_f low_f_env 1 [Fin (1 / 2)] (replicate 4 (Fin (- (1 / 2)))) pos = None"
proof (cases "resample_f low_f_env 1 [Fin (1 / 2)] (replicate 4 (Fin (- (1 / 2)))) pos")
  case None
  then show ?thesis .
next
  case (Some r)
  from resample_f_passes[OF this] low_f_passes show ?thesis by simp
qed

section \<open>Convergence monitor\<close>



section \<open>Archive\<close>

text \<open>
  C3, as the claim states it, fails: the capacity is enforced against the population size
  the generation started with, before the shrink, and the shrink does not touch the
  archive. With five individuals and a budget of 10 evaluations the first generation
  archives five vectors and then shrinks the population to four.
\<close>

theorem archive_above_population_size:
  "demo_start plain_env 5 10 6 (PyFloat (1 / 1000000)) (PyInt 2) = Inr shrink_start
   \<and> map_option (map_sum id archive) (generation plain_env shrink_start)
       = Some (Inr [[1 / 2], [1], [3 / 2], [2], [5 / 2]])
   \<and> map_option (map_sum id population_size) (generation plain_env shrink_start) = Some (Inr 4)"
  by code_simp

text \<open>
  C3, amended. In every generation of a run: when the success set is not empty, the
  archive at the end of the generation is no longer than the population size the
  generation started with; when it is empty the archive is unchanged; the population
  size does not grow; and the archive is never longer than the initial population size.
\<close>

theorem archive_bounded_by_start_size:
  assumes "initial_state env psize isize bnds msize prec mevac mevals seed = Inr s0"
    and "reaches env s0 s" "running s" "generation env s = Some (Inr t)"
  shows "(\<exists>cr f pos pop indexes c_fit.
            sample_parameters env s = Some (Inr (cr, f, pos))
          \<and> variation env s cr f pos = (pop, indexes, c_fit)
          \<and> (if indexes = [] then archive t = archive s
             else int (length (archive t)) \<le> population_size s))
       \<and> population_size t \<le> population_size s
       \<and> int (length (archive t)) \<le> population_size s0"
proof -
  note i = initial_state_facts[OF assms(1)]
  have "reaches env s0 t" using assms(2,3,4) by (rule reaches.next_generation)
  then have "int (length (archive t)) \<le> init_size s0"
    by (rule reaches_archive) (use i(1,2,4) in simp_all)
  then have "int (length (archive t)) \<le> population_size s0"
    using i(1) by simp
  with generation_archive[OF assms(4)] generation_population_size_le[OF assms(4)]
  show ?thesis by (intro conjI)
qed

theorem archive_bounded_by_start_size_witness:
  "demo_start plain_env 5 10 6 (PyFloat (1 / 1000000)) (PyInt 2) = Inr shrink_start
   \<and> reaches plain_env shrink_start shrink_start \<and> running shrink_start
   \<and> generation plain_env shrink_start = Some (Inr shrink_end)
   \<and> length (archive shrink_end) = 5 \<and> population_size shrink_start = 5
   \<and> population_size shrink_end = 4
   \<and> int (length (archive shrink_end)) \<le> population_size shrink_start"
proof -
  have i: "initial_state plain_env (PyInt 5) (PyInt 1) [(- 10, 10)] 6 (PyFloat (1 / 1000000))
             (PyInt 2) (PyInt 10) PyNone = Inr shrink_start"
    using shrink_start_initial by (simp add: demo_start_def)
  have r: "reaches plain_env shrink_start shrink_start" by (rule reaches.start)
  have ru: "running shrink_start" by (simp add: running_def shrink_start_def)
  have "int (length (archive shrink_end)) \<le> population_size shrink_start"
    using archive_bounded_by_start_size[OF i r ru shrink_generation, THEN conjunct2, THEN conjunct2] .
  then show ?thesis
    using shrink_start_initial r ru shrink_generation
    by (simp add: shrink_end_def shrink_start_def)
qed

section \<open>Population-size schedule\<close>

text \<open>
  C6, as the claim states it, fails in its lower bound: every positive population size
  passes the check of line 60, and the schedule never enlarges a population. A run
  started with two individuals has two individuals at the head of its loop and when it
  ends.
\<close>

theorem population_size_below_four:
  "demo_start plain_env 2 8 6 (PyFloat (1 / 1000000)) (PyInt 2) = Inr small_start
   \<and> running small_start
   \<and> population_size small_start = 2
   \<and> map_option (map_sum id population_size) (generation_loop plain_env small_start)
       = Some (Inr 2)"
  by code_simp

text \<open>
  C6, amended. In every generation of a run the population size does not grow, and at
  the start of the generation it is at most the initial size; it shrinks only when the
  target of the linear schedule is strictly smaller than the current size, and in a
  generation that stays within the budget it ends as the smaller of the two. When the
  initial size is at least 4 (initial size and budget at most \<open>2\<^sup>4\<^sup>0\<close>, where the double
  arithmetic of the schedule is within a quarter of the exact line), the size is at
  least 4 at the start of every generation that runs and at the end of every generation
  that stays within the budget.
\<close>

theorem population_size_schedule:
  assumes "initial_state env psize isize bnds msize prec mevac mevals seed = Inr s0"
    and "reaches env s0 s" "running s" "generation env s = Some (Inr t)"
  shows "population_size s \<le> population_size s0
       \<and> population_size t \<le> population_size s
       \<and> (population_size t < population_size s \<longrightarrow>
            target_size (init_size s0) (max_evals s0) (num_evals t) < population_size s)
       \<and> (num_evals t \<le> max_evals t \<longrightarrow>
            population_size t =
              min (population_size s) (target_size (init_size s0) (max_evals s0) (num_evals t)))
       \<and> (4 \<le> population_size s0 \<and> population_size s0 \<le> 2 ^ 40 \<and> max_evals s0 \<le> 2 ^ 40 \<longrightarrow>
            4 \<le> population_size s \<and> (num_evals t \<le> max_evals t \<longrightarrow> 4 \<le> population_size t))"
proof -
  note i = initial_state_facts[OF assms(1)]
  note c = reaches_constants[OF assms(2)]
  note g = generation_sizes[OF assms(4)]
  have u: "reaches env s0 t" using assms(2,3,4) by (rule reaches.next_generation)
  have floor: "4 \<le> population_size s0 \<and> population_size s0 \<le> 2 ^ 40 \<and> max_evals s0 \<le> 2 ^ 40 \<longrightarrow>
            4 \<le> population_size s \<and> (num_evals t \<le> max_evals t \<longrightarrow> 4 \<le> population_size t)"
  proof
    assume b: "4 \<le> population_size s0 \<and> population_size s0 \<le> 2 ^ 40 \<and> max_evals s0 \<le> 2 ^ 40"
    have "(4 \<le> population_size s \<or> max_evals s < num_evals s) \<and> 0 \<le> num_evals s"
      by (rule reaches_floor[OF assms(2)]) (use b i(1,2,3,9) in simp_all)
    with assms(3) have s: "4 \<le> population_size s" by (simp add: running_def)
    have "(4 \<le> population_size t \<or> max_evals t < num_evals t) \<and> 0 \<le> num_evals t"
      by (rule reaches_floor[OF u]) (use b i(1,2,3,9) in simp_all)
    then have "num_evals t \<le> max_evals t \<longrightarrow> 4 \<le> population_size t" by auto
    with s show "4 \<le> population_size s \<and> (num_evals t \<le> max_evals t \<longrightarrow> 4 \<le> population_size t)"
      by simp
  qed
  have eq: "population_size t =
           (if target_size (init_size s0) (max_evals s0) (num_evals t) < population_size s
            then target_size (init_size s0) (max_evals s0) (num_evals t) else population_size s)"
    using g(5,6) c by simp
  have "population_size t \<le> population_size s" using eq by (simp split: if_splits)
  moreover have "population_size t < population_size s \<longrightarrow>
            target_size (init_size s0) (max_evals s0) (num_evals t) < population_size s"
    using eq by (simp split: if_splits)
  moreover have "num_evals t \<le> max_evals t \<longrightarrow>
            population_size t =
              min (population_size s) (target_size (init_size s0) (max_evals s0) (num_evals t))"
    using eq by (simp add: min_def)
  ultimately show ?thesis using reaches_population_size[OF assms(2)] floor by blast
qed

theorem population_size_schedule_witness:
  "initial_state plain_env (PyInt 5) (PyInt 1) [(- 10, 10)] 6 (PyFloat (1 / 1000000))
     (PyInt 2) (PyInt 10) PyNone = Inr shrink_start
   \<and> reaches plain_env shrink_start shrink_start \<and> running shrink_start
   \<and> generation plain_env shrink_start = Some (Inr shrink_end)
   \<and> 4 \<le> population_size shrink_start \<and> population_size shrink_start \<le> 2 ^ 40
   \<and> max_evals shrink_start \<le> 2 ^ 40
   \<and> num_evals shrink_end \<le> max_evals shrink_end
   \<and> population_size shrink_end < population_size shrink_start
   \<and> target_size 5 10 10 < population_size shrink_start
   \<and> population_size shrink_end = min (population_size shrink_start) (target_size 5 10 10)
   \<and> 4 \<le> population_size shrink_end"
proof -
  have i: "initial_state plain_env (PyInt 5) (PyInt 1) [(- 10, 10)] 6 (PyFloat (1 / 1000000))
             (PyInt 2) (PyInt 10) PyNone = Inr shrink_start"
    using shrink_start_initial by (simp add: demo_start_def)
  have r: "reaches plain_env shrink_start shrink_start" by (rule reaches.start)
  have ru: "running shrink_start" by (simp add: running_def shrink_start_def)
  have b: "4 \<le> population_size shrink_start" "population_size shrink_start \<le> 2 ^ 40"
    "max_evals shrink_start \<le> 2 ^ 40"
    by (simp_all add: shrink_start_def)
  have w: "num_evals shrink_end \<le> max_evals shrink_end"
    by (simp add: shrink_end_def shrink_start_def)
  have l: "population_size shrink_end < population_size shrink_start"
    by (simp add: shrink_end_def shrink_start_def)
  have v: "init_size shrink_start = 5" "max_evals shrink_start = 10" "num_evals shrink_end = 10"
    by (simp_all add: shrink_end_def shrink_start_def)
  note t = population_size_schedule[OF i r ru shrink_generation]
  from t l
  have "target_size (init_size shrink_start) (max_evals shrink_start) (num_evals shrink_end)
          < population_size shrink_start"
    by blast
  then have "target_size 5 10 10 < population_size shrink_start" by (simp only: v)
  moreover from t w
  have "population_size shrink_end =
          min (population_size shrink_start)
            (target_size (init_size shrink_start) (max_evals shrink_start) (num_evals shrink_end))"
    by blast
  then have "population_size shrink_end = min (population_size shrink_start) (target_size 5 10 10)"
    by (simp only: v)
  moreover from t b w have "4 \<le> population_size shrink_end" by blast
  ultimately show ?thesis using i r ru shrink_generation b w l by simp
qed

text \<open>
  The schedule rounds doubles, not reals: for 49 individuals and a budget of 140 the
  exact line is at \<open>17.5\<close> after 98 evaluations, the doubles give \<open>17.499999999999996\<close>,
  and the target is 17.
\<close>

lemma schedule_in_doubles:
  "schedule_exact 49 140 98 = 35 / 2
   \<and> schedule 49 140 98 = 4925812092436479 / 281474976710656
   \<and> target_size 49 140 98 = 17"
  by code_simp

section \<open>The stagnation stop and the type of precision\<close>




section \<open>Memory frame\<close>

text \<open>
  C7, as the claim states it, fails for the cursor. In the run below (five individuals,
  six memory slots, a budget of 64 evaluations) each of the first five generations has
  a success, so the cursor is 5, which is also the initial population size. The sixth
  generation has no success and shrinks the population, and the guard of lines 160 and
  161 sets the cursor to 0.
\<close>

theorem cursor_reset_without_success:
  "demo_start cursor_env 5 64 6 (PyFloat (1 / 1000000)) (PyInt 2) = Inr cursor_start
   \<and> generations_upto 5 cursor_env cursor_start = Some (Inr cursor_state)
   \<and> running cursor_state
   \<and> sample_parameters cursor_env cursor_state =
       Some (Inr (replicate 5 (Fin (1 / 2)), replicate 5 (Fin (1 / 2)), 90))
   \<and> fst (snd (variation cursor_env cursor_state (replicate 5 (Fin (1 / 2))) (replicate 5 (Fin (1 / 2))) 90)) = []
   \<and> k cursor_state = 5
   \<and> map_option (map_sum id k) (generation cursor_env cursor_state) = Some (Inr 0)"
  by code_simp

text \<open>
  C7, amended. When the success set of a generation is empty, both memory arrays are
  unchanged, and so is the cursor unless the generation shrinks the population while the
  cursor equals the initial population size, in which case the cursor becomes 0.
\<close>

theorem empty_success_set_frame:
  assumes "sample_parameters env s = Some (Inr (cr, f, pos))"
    and "variation env s cr f pos = (pop, [], c_fit)"
    and "generation env s = Some (Inr t)"
  shows "m_cr t = m_cr s \<and> m_f t = m_f s
       \<and> k t = (if population_size t < population_size s \<and> int (k s) = init_size s then 0 else k s)"
proof -
  from assms(3) obtain cr1 f1 pos1 pop1 indexes c_fit1 arch mcr mf k1 pos2 s1 where
    sp: "sample_parameters env s = Some (Inr (cr1, f1, pos1))"
    and v: "variation env s cr1 f1 pos1 = (pop1, indexes, c_fit1)"
    and aam: "adapt_archive_memory env s pop1 indexes c_fit1 cr1 f1 pos1 = Inr (arch, mcr, mf, k1, pos2)"
    and a: "adapt_population_size env
       (s\<lparr>population := pop1, num_evals := num_evals s + population_size s,
          archive := arch, m_cr := mcr, m_f := mf, k := k1, rng_pos := pos2\<rparr>)
       indexes c_fit1 = Inr s1"
    and m: "monitor s1 = Inr t"
    by (rule generation_cases)
  from sp assms(1) have "cr1 = cr" "f1 = f" "pos1 = pos" by simp_all
  with v assms(2) have e: "indexes = []" "pop1 = pop" "c_fit1 = c_fit" by simp_all
  note n = adapt_archive_memory_no_success[OF aam[unfolded e(1)]]
  note fr = adapt_population_size_frame[OF a]
  note sz = adapt_population_size_size[OF a]
  note mo = monitor_frame[OF m]
  have "m_cr t = m_cr s" using mo(8) fr(7) n(2) by simp
  moreover have "m_f t = m_f s" using mo(9) fr(8) n(3) by simp
  moreover have "population_size t < population_size s \<longleftrightarrow>
      target_size (init_size s) (max_evals s) (num_evals s + population_size s) < population_size s"
    using mo(1) sz(1) by simp
  then have "k t = (if population_size t < population_size s \<and> int (k s) = init_size s then 0 else k s)"
    using mo(10) sz(3) n(4) by simp
  ultimately show ?thesis by simp
qed

theorem empty_success_set_frame_witness:
  "sample_parameters cursor_env cursor_state =
       Some (Inr (replicate 5 (Fin (1 / 2)), replicate 5 (Fin (1 / 2)), 90))
   \<and> variation cursor_env cursor_state (replicate 5 (Fin (1 / 2))) (replicate 5 (Fin (1 / 2))) 90
       = ([[1 / 32], [2], [3], [4], [5]], [], [103041 / 4096, 36, 169 / 4, 49, 225 / 4])
   \<and> generation cursor_env cursor_state
       = Some (Inr (cursor_state\<lparr>population := [[1 / 32], [2], [3], [4]], population_size := 4,
            k := 0, fitness := [1 / 1024, 4, 9, 16], num_evals := 35, converge_countdown := 1,
            fitness_history := [1 / 4, 1 / 16, 1 / 64, 1 / 256, 1 / 1024, 1 / 1024],
            current_generation := 6, rng_pos := 90\<rparr>))
   \<and> m_cr cursor_state = replicate 6 (Fin (1 / 2))
   \<and> m_f cursor_state = replicate 6 (Fin (1 / 2))
   \<and> int (k cursor_state) = init_size cursor_state"
proof -
  have sp: "sample_parameters cursor_env cursor_state =
       Some (Inr (replicate 5 (Fin (1 / 2)), replicate 5 (Fin (1 / 2)), 90))"
    by code_simp
  have v: "variation cursor_env cursor_state (replicate 5 (Fin (1 / 2))) (replicate 5 (Fin (1 / 2))) 90
       = ([[1 / 32], [2], [3], [4], [5]], [], [103041 / 4096, 36, 169 / 4, 49, 225 / 4])"
    by code_simp
  have g: "generation cursor_env cursor_state
       = Some (Inr (cursor_state\<lparr>population := [[1 / 32], [2], [3], [4]], population_size := 4,
            k := 0, fitness := [1 / 1024, 4, 9, 16], num_evals := 35, converge_countdown := 1,
            fitness_history := [1 / 4, 1 / 16, 1 / 64, 1 / 256, 1 / 1024, 1 / 1024],
            current_generation := 6, rng_pos := 90\<rparr>))"
    by code_simp
  from empty_success_set_frame[OF sp v g]
  have "m_cr cursor_state = replicate 6 (Fin (1 / 2)) \<and> m_f cursor_state = replicate 6 (Fin (1 / 2))"
    by (simp add: cursor_state_def cursor_start_def shrink_start_def)
  moreover have "int (k cursor_state) = init_size cursor_state"
    by (simp add: cursor_state_def cursor_start_def shrink_start_def)
  ultimately show ?thesis using sp v g by simp
qed

section \<open>The countdown argument\<close>

text \<open>
  C8, as the claim states it, fails: line 69 rejects a non-positive value before
  anything is computed.
\<close>

theorem nonpositive_countdown_rejected:
  "lshade_apply plain_env (PyInt 4) (PyInt 1) [(- 10, 10)] 6 (PyFloat (1 / 1000000)) (PyInt 0)
     (PyInt 8) PyNone False
   = Some (Inl (ValueError ''max_evals_after_converge must be None or a positive integer.''))"
  by code_simp

text \<open>
  C8, amended. A call whose \<^verbatim>\<open>max_evals_after_converge\<close> is an integer or a float \<open>\<le> 0\<close>
  raises \<^verbatim>\<open>ValueError\<close>, whatever the other arguments. A call whose value is a positive
  float, with the other arguments valid (population size and budget at most \<open>2\<^sup>4\<^sup>0\<close>, the
  seed \<^verbatim>\<open>None\<close> or an integer from 0 to \<open>2\<^sup>3\<^sup>2 - 1\<close>), passes the checks and the loop of
  lines 97 to 103 and reaches the generation loop with the countdown at the default
  \<open>2 * individual_size\<close>.
\<close>

theorem countdown_argument_checked:
  "(n \<le> 0 \<longrightarrow>
      (\<exists>msg. lshade_apply env psize isize bnds msize prec (PyInt n) mevals seed rh
               = Some (Inl (ValueError msg))))
   \<and> (x \<le> 0 \<longrightarrow>
      (\<exists>msg. lshade_apply env psize isize bnds msize prec (PyFloat x) mevals seed rh
               = Some (Inl (ValueError msg))))
   \<and> (0 < y \<and> 0 < p \<and> p \<le> 2 ^ 40 \<and> 0 < i \<and> 0 < m \<and> m \<le> 2 ^ 40
        \<and> int (length bnds) = i \<and> 0 \<le> msize
        \<and> (seed = PyNone \<or> seed = PyInt sd \<and> 0 \<le> sd \<and> sd < 2 ^ 32) \<longrightarrow>
      (\<exists>iters. max_iters_loop p m 0 0 = Some iters)
      \<and> (\<exists>s0. initial_state env (PyInt p) (PyInt i) bnds msize prec (PyFloat y) (PyInt m) seed
               = Inr s0
            \<and> converge_countdown s0 = 2 * i))"
proof (intro conjI impI)
  assume "n \<le> 0"
  then obtain msg where "check_parameters psize isize mevals (PyInt n) bnds seed = Inl (ValueError msg)"
    using check_parameters_nonpositive[of "PyInt n" n] by blast
  then show "\<exists>msg. lshade_apply env psize isize bnds msize prec (PyInt n) mevals seed rh
               = Some (Inl (ValueError msg))"
    by (simp add: lshade_apply_def final_state_def initial_state_def)
next
  assume "x \<le> 0"
  then obtain msg where "check_parameters psize isize mevals (PyFloat x) bnds seed = Inl (ValueError msg)"
    using check_parameters_nonpositive[of "PyFloat x" _ x] by blast
  then show "\<exists>msg. lshade_apply env psize isize bnds msize prec (PyFloat x) mevals seed rh
               = Some (Inl (ValueError msg))"
    by (simp add: lshade_apply_def final_state_def initial_state_def)
next
  assume h: "0 < y \<and> 0 < p \<and> p \<le> 2 ^ 40 \<and> 0 < i \<and> 0 < m \<and> m \<le> 2 ^ 40
        \<and> int (length bnds) = i \<and> 0 \<le> msize
        \<and> (seed = PyNone \<or> seed = PyInt sd \<and> 0 \<le> sd \<and> sd < 2 ^ 32)"
  then show "\<exists>iters. max_iters_loop p m 0 0 = Some iters"
    by (intro max_iters_loop_returns) simp_all
  from h show "\<exists>s0. initial_state env (PyInt p) (PyInt i) bnds msize prec (PyFloat y) (PyInt m) seed
               = Inr s0
            \<and> converge_countdown s0 = 2 * i"
    using initial_state_float_countdown[of y p i m bnds msize seed sd env prec] by blast
qed

theorem countdown_argument_checked_witness:
  "lshade_apply plain_env (PyInt 4) (PyInt 1) [(- 10, 10)] 6 (PyFloat (1 / 1000000)) (PyInt (- 3))
      (PyInt 8) PyNone False
     = Some (Inl (ValueError ''max_evals_after_converge must be None or a positive integer.''))
   \<and> lshade_apply plain_env (PyInt 4) (PyInt 1) [(- 10, 10)] 6 (PyFloat (1 / 1000000))
      (PyFloat (- 3 / 2)) (PyInt 8) PyNone False
     = Some (Inl (ValueError ''max_evals_after_converge must be None or a positive integer.''))
   \<and> max_iters_loop 4 8 0 0 = Some 2
   \<and> map_sum id converge_countdown
        (initial_state plain_env (PyInt 4) (PyInt 1) [(- 10, 10)] 6 (PyFloat (1 / 1000000))
           (PyFloat (5 / 2)) (PyInt 8) PyNone)
     = Inr 2"
proof -
  have l: "max_iters_loop 4 8 0 0 = Some 2" by code_simp
  have a: "lshade_apply plain_env (PyInt 4) (PyInt 1) [(- 10, 10)] 6 (PyFloat (1 / 1000000))
      (PyInt (- 3)) (PyInt 8) PyNone False
     = Some (Inl (ValueError ''max_evals_after_converge must be None or a positive integer.''))"
    by code_simp
  have b: "lshade_apply plain_env (PyInt 4) (PyInt 1) [(- 10, 10)] 6 (PyFloat (1 / 1000000))
      (PyFloat (- 3 / 2)) (PyInt 8) PyNone False
     = Some (Inl (ValueError ''max_evals_after_converge must be None or a positive integer.''))"
    by code_simp
  have "\<exists>s0. initial_state plain_env (PyInt 4) (PyInt 1) [(- 10, 10)] 6 (PyFloat (1 / 1000000))
           (PyFloat (5 / 2)) (PyInt 8) PyNone = Inr s0
         \<and> converge_countdown s0 = 2 * 1"
    using countdown_argument_checked[of "- 3" plain_env "PyInt 4" "PyInt 1" "[(- 10, 10)]" 6
        "PyFloat (1 / 1000000)" "PyInt 8" PyNone False "- 3 / 2" "5 / 2" 4 1 8 0]
    by simp
  then have "map_sum id converge_countdown
        (initial_state plain_env (PyInt 4) (PyInt 1) [(- 10, 10)] 6 (PyFloat (1 / 1000000))
           (PyFloat (5 / 2)) (PyInt 8) PyNone)
     = Inr 2"
    by auto
  with a b l show ?thesis by simp
qed

text \<open>
  The value \<^verbatim>\<open>None\<close> does not reach the substitution either: line 69 compares it with 0.
  And a seed outside the range of \<^verbatim>\<open>np.random.seed\<close> is rejected at line 80.
\<close>

lemma negative_seed_rejected:
  "lshade_apply plain_env (PyInt 4) (PyInt 1) [(- 10, 10)] 6 (PyFloat (1 / 1000000)) (PyFloat (5 / 2))
     (PyInt 8) (PyInt (- 1)) False
   = Some (Inl (ValueError ''Seed must be between 0 and 2**32 - 1''))"
  by code_simp

lemma none_countdown_type_error:
  "lshade_apply plain_env (PyInt 4) (PyInt 1) [(- 10, 10)] 6 (PyFloat (1 / 1000000)) PyNone
     (PyInt 8) PyNone False
   = Some (Inl TypeError)"
  by code_simp

section \<open>Sampling F\<close>

text \<open>
  C9, as the claim states it, fails: the loop of lines 121 to 123 has no cap and no
  failure of its own. When every Cauchy variate is \<open>-10\<close> every draw of F is \<open>-0.5\<close>, each
  pass leaves all four entries invalid, and the call never returns.
\<close>

theorem resample_never_returns:
  "lshade_apply low_f_env (PyInt 4) (PyInt 1) [(- 10, 10)] 1 (PyFloat (1 / 1000000)) (PyInt 2)
     (PyInt 8) PyNone False = None"
proof -
  have i: "initial_state low_f_env (PyInt 4) (PyInt 1) [(- 10, 10)] 1 (PyFloat (1 / 1000000)) (PyInt 2)
     (PyInt 8) PyNone = Inr high_start"
    by code_simp
  have ru: "running high_start" by (simp add: running_def high_start_def)
  have fd: "first_draw low_f_env high_start
              = Inr (replicate 4 (Fin (1 / 2)), replicate 4 (Fin (- (1 / 2))), 12)"
    by code_simp
  have m: "memory_size high_start = 1" "m_f high_start = [Fin (1 / 2)]"
    by (simp_all add: high_start_def)
  have "sample_parameters low_f_env high_start = None"
    by (simp add: sample_parameters_def fd m low_f_resample)
  then have "generation low_f_env high_start = None" by (simp add: generation_def)
  then have "generation_loop low_f_env high_start = None"
    using ru by (subst generation_loop.simps) simp
  then show ?thesis by (simp add: lshade_apply_def final_state_def i)
qed

text \<open>
  C9, amended. The loop returns exactly when some number of passes leaves no entry
  \<open>\<le> 0\<close> (or a pass raises), with the result those passes give, and then no entry of the
  returned vector is \<open>\<le> 0\<close>; there is no bound on that number and no other exit.
\<close>

theorem resample_returns_when_valid:
  "(resample_f env msize mf f pos = Some r) = (\<exists>n. resample_passes n env msize mf f pos = Some r)
   \<and> (resample_f env msize mf f pos = Some (Inr (f1, pos1)) \<longrightarrow> filter invalid f1 = [])"
proof (intro conjI impI)
  show "(resample_f env msize mf f pos = Some r) = (\<exists>n. resample_passes n env msize mf f pos = Some r)"
    using resample_f_passes resample_passes_sound by blast
next
  assume "resample_f env msize mf f pos = Some (Inr (f1, pos1))"
  then obtain n where "resample_passes n env msize mf f pos = Some (Inr (f1, pos1))"
    using resample_f_passes by blast
  then show "filter invalid f1 = []" by (rule resample_passes_valid)
qed

theorem resample_returns_when_valid_witness:
  "resample_passes 1 high_f_env 1 [Fin (1 / 2)] (replicate 4 (Fin 0)) 12
     = Some (Inr (replicate 4 (Fin (11 / 10)), 20))
   \<and> resample_f high_f_env 1 [Fin (1 / 2)] (replicate 4 (Fin 0)) 12
     = Some (Inr (replicate 4 (Fin (11 / 10)), 20))
   \<and> filter invalid (replicate 4 (Fin (11 / 10))) = []"
proof -
  have p: "resample_passes 1 high_f_env 1 [Fin (1 / 2)] (replicate 4 (Fin 0)) 12
     = Some (Inr (replicate 4 (Fin (11 / 10)), 20))"
    by code_simp
  note t = resample_returns_when_valid[of high_f_env 1 "[Fin (1 / 2)]" "replicate 4 (Fin 0)" 12
      "Inr (replicate 4 (Fin (11 / 10)), 20)" "replicate 4 (Fin (11 / 10))" 20]
  from t p have r: "resample_f high_f_env 1 [Fin (1 / 2)] (replicate 4 (Fin 0)) 12
     = Some (Inr (replicate 4 (Fin (11 / 10)), 20))"
    by blast
  with t have "filter invalid (replicate 4 (Fin (11 / 10))) = []" by blast
  with p r show ?thesis by simp
qed

text \<open>
  C1. The claim does not hold of the code: line 119 sends a first draw above 1 to the
  resampling, but the loop tests only \<^verbatim>\<open>f <= 0\<close>, so a redrawn value above 1 stays. With
  every Cauchy variate \<open>6\<close> the first draws are \<open>0.5 + 0.6 = 1.1\<close>, are set to 0, are redrawn
  as \<open>1.1\<close>, and the vector handed to the mutation is \<open>1.1\<close> throughout.
\<close>

theorem f_above_one:
  "demo_start high_f_env 4 8 1 (PyFloat (1 / 1000000)) (PyInt 2) = Inr high_start
   \<and> sample_parameters high_f_env high_start =
       Some (Inr (replicate 4 (Fin (1 / 2)), replicate 4 (Fin (11 / 10)), 20))
   \<and> np_gt (Fin (11 / 10)) (Fin 1)"
  by code_simp

section \<open>Memory update\<close>

text \<open>
  C2. The claim does not hold of the code: in the run above the successful F values are
  all \<open>1.1\<close>, and their weighted Lehmer mean, \<open>1.1\<close>, is stored in the F memory.
\<close>

theorem memory_above_one:
  "map_option (map_sum id m_f) (generation high_f_env high_start) = Some (Inr [Fin (11 / 10)])
   \<and> np_gt (Fin (11 / 10)) (Fin 1)"
  by code_simp

text \<open>
  The \<open>NaN\<close> guard of lines 145 and 146 covers the CR memory only. When every success is
  a tie the weights are \<open>0 / 0\<close>, and the F memory receives \<open>NaN\<close>.
\<close>

lemma flat_objective_memory_nan:
  "map_option (map_sum id m_f)
     (generation flat_env (high_start\<lparr>fitness := [0, 0, 0, 0], best_fitness := 0\<rparr>))
   = Some (Inr [NaN])
   \<and> map_option (map_sum id m_cr)
     (generation flat_env (high_start\<lparr>fitness := [0, 0, 0, 0], best_fitness := 0\<rparr>))
   = Some (Inr [Fin 1])"
  by code_simp

section \<open>What the archive receives\<close>

text \<open>
  C4. The claim does not hold of the code: line 136 reads \<^verbatim>\<open>population[indexes]\<close> after
  line 132 has rebound \<^verbatim>\<open>population\<close> to the result of the selection, so the archive
  receives the winning trials. Below, all four trials win; the parents \<open>[1], [2], [3], [4]\<close>
  are replaced, and the archive holds the trials \<open>[1/2], [1], [3/2], [2]\<close>.
\<close>

theorem archive_holds_trials:
  "population budget_start = [[1], [2], [3], [4]]
   \<and> archive budget_start = []
   \<and> variation plain_env budget_start (replicate 4 (Fin (1 / 2))) (replicate 4 (Fin (1 / 2))) 12
       = ([[1 / 2], [1], [3 / 2], [2]], [0, 1, 2, 3], [1 / 4, 1, 9 / 4, 4])
   \<and> map_option (map_sum id archive) (generation plain_env budget_start)
       = Some (Inr [[1 / 2], [1], [3 / 2], [2]])"
  by code_simp

text \<open>
  The schedule is not clamped when the last generation passes the budget: five
  individuals with a budget of 6 evaluations end with three, and a target size of exactly
  0 (ten individuals, a budget of 12) empties the population, so that the minimum of line
  166 or 168 raises.
\<close>

lemma overrun_not_clamped:
  "demo_start plain_env 5 6 6 (PyFloat (1 / 1000000)) (PyInt 2) = Inr overrun_start
   \<and> map_option (map_sum id num_evals) (generation plain_env overrun_start) = Some (Inr 10)
   \<and> map_option (map_sum id population_size) (generation plain_env overrun_start) = Some (Inr 3)"
  by code_simp

lemma zero_target_size_fails:
  "lshade_apply plain_env (PyInt 10) (PyInt 1) [(- 10, 10)] 6 (PyFloat (1 / 1000000)) (PyInt 2)
     (PyInt 12) PyNone False
   = Some (Inl (ValueError ''zero-size array to reduction operation minimum which has no identity''))"
  by code_simp

end
